theory Spec2Isabelle
  imports Main "HOL-Library.Word" "HOL-Library.AList" "HOL-Library.Multiset"
begin

unbundle bit_operations_syntax

section \<open>Values of the Go runtime that the catalogue clients use\<close>

subsection \<open>float64\<close>

text \<open>
  A Go \<open>float64\<close> is kept as its IEEE-754 binary64 bit pattern. No arithmetic is done on
  floats by the code under study: they are compared against a constant and rendered by
  \<open>fmt.Sprintf\<close>. The rendering (\<open>%v\<close>, \<open>%f\<close>) belongs to the Go standard library and is
  a parameter of every function that uses it.
\<close>

type_synonym float64 = "64 word"

definition isNaN :: "float64 \<Rightarrow> bool" where
  "isNaN w = (drop_bit 52 w AND 0x7FF = 0x7FF \<and> w AND 0xFFFFFFFFFFFFF \<noteq> 0)"

definition isZero :: "float64 \<Rightarrow> bool" where
  "isZero w = (w AND 0x7FFFFFFFFFFFFFFF = 0)"

text \<open>Go's \<open>==\<close> on float64: a NaN equals nothing, the two zeros are equal.\<close>

definition float64_eq :: "float64 \<Rightarrow> float64 \<Rightarrow> bool" where
  "float64_eq a b = (\<not> isNaN a \<and> \<not> isNaN b \<and> (a = b \<or> (isZero a \<and> isZero b)))"

text \<open>The constant \<open>-999.9\<close>, the value of an unset \<open>MinMagnitude\<close>.\<close>

definition unsetMinMagnitude :: float64 where
  "unsetMinMagnitude = 0xC08F3F3333333333"

subsection \<open>Decimal rendering of integers\<close>

function digits :: "nat \<Rightarrow> string" where
  "digits n = (if n < 10 then [''0123456789'' ! n]
               else digits (n div 10) @ [''0123456789'' ! (n mod 10)])"
  by pat_completeness auto
termination
  by (relation "measure id") auto

declare digits.simps [simp del]

text \<open>
  \<open>appendInt\<close> of package time: the decimal form of \<open>x\<close>, a minus sign first when it is
  negative, padded with zeros on the left up to \<open>width\<close> digits.
\<close>

definition appendInt :: "int \<Rightarrow> nat \<Rightarrow> string" where
  "appendInt x width =
     (let ds = digits (nat \<bar>x\<bar>)
      in (if x < 0 then ''-'' else []) @ replicate (width - length ds) (CHR ''0'') @ ds)"

text \<open>\<open>%v\<close> of a Go \<open>int\<close>: the decimal form with no padding.\<close>

definition Itoa :: "int \<Rightarrow> string" where
  "Itoa x = appendInt x 0"

subsection \<open>time.Time\<close>

text \<open>
  A \<open>time.Time\<close> is an instant together with a location. It is kept as the calendar
  fields of the instant in that location and the offset of the location at that instant,
  in seconds east of UTC. \<open>Year\<close> and \<open>Format\<close> read the calendar fields;
  \<open>After\<close> compares instants. The rules of the location (a fixed offset, or the local
  zone with its changes of offset, which \<open>time.Parse\<close> chooses when the offset of the
  string is that of the local zone) are not part of the value: \<open>AddDate\<close>, which
  depends on them, is a parameter of the functions that call it.
\<close>

record Time =
  tm_year :: int
  tm_month :: nat
  tm_day :: nat
  tm_hour :: nat
  tm_min :: nat
  tm_sec :: nat
  tm_nsec :: nat
  tm_offset :: int

definition isLeap :: "int \<Rightarrow> bool" where
  "isLeap y = (y mod 4 = 0 \<and> (y mod 100 \<noteq> 0 \<or> y mod 400 = 0))"

definition daysIn :: "nat \<Rightarrow> int \<Rightarrow> nat" where
  "daysIn m y =
     (if m = 2 then (if isLeap y then 29 else 28)
      else if m = 4 \<or> m = 6 \<or> m = 9 \<or> m = 11 then 30 else 31)"

definition valid_Time :: "Time \<Rightarrow> bool" where
  "valid_Time t =
     (1 \<le> tm_month t \<and> tm_month t \<le> 12 \<and>
      1 \<le> tm_day t \<and> tm_day t \<le> daysIn (tm_month t) (tm_year t) \<and>
      tm_hour t < 24 \<and> tm_min t < 60 \<and> tm_sec t < 60 \<and> tm_nsec t < 1000000000)"

definition Year :: "Time \<Rightarrow> int" where
  "Year t = tm_year t"

text \<open>Days from 1 January of year 1 to 1 January of year \<open>y\<close>.\<close>

definition daysSinceEpoch :: "int \<Rightarrow> int" where
  "daysSinceEpoch y = 365 * (y - 1) + (y - 1) div 4 - (y - 1) div 100 + (y - 1) div 400"

definition daysBefore :: "nat list" where
  "daysBefore = [0, 31, 59, 90, 120, 151, 181, 212, 243, 273, 304, 334, 365]"

text \<open>The instant of a time, in seconds since 1 January of year 1, 00:00:00 UTC.\<close>

definition abs_seconds :: "Time \<Rightarrow> int" where
  "abs_seconds t =
     (daysSinceEpoch (tm_year t) + int (daysBefore ! (tm_month t - 1))
        + (if isLeap (tm_year t) \<and> 3 \<le> tm_month t then 1 else 0)
        + (int (tm_day t) - 1)) * 86400
     + int (tm_hour t) * 3600 + int (tm_min t) * 60 + int (tm_sec t) - tm_offset t"

definition After :: "Time \<Rightarrow> Time \<Rightarrow> bool" where
  "After t u =
     (abs_seconds u < abs_seconds t \<or> (abs_seconds t = abs_seconds u \<and> tm_nsec u < tm_nsec t))"

text \<open>The days of the year before the day of a time.\<close>

definition day_of_year :: "Time \<Rightarrow> int" where
  "day_of_year t = int (daysBefore ! (tm_month t - 1))
        + (if isLeap (tm_year t) \<and> 3 \<le> tm_month t then 1 else 0)
        + (int (tm_day t) - 1)"

text \<open>\<open>t.Format("2006-01-02T15:04:05")\<close>.\<close>

definition Format :: "Time \<Rightarrow> string" where
  "Format t =
     appendInt (tm_year t) 4 @ ''-'' @ appendInt (int (tm_month t)) 2 @ ''-'' @
     appendInt (int (tm_day t)) 2 @ ''T'' @ appendInt (int (tm_hour t)) 2 @ '':'' @
     appendInt (int (tm_min t)) 2 @ '':'' @ appendInt (int (tm_sec t)) 2"

section \<open>Package wfs: the request builder\<close>

definition wfsUrl :: string where
  "wfsUrl = ''http://wfs.geonet.org.nz/geonet/ows?service=WFS&version=1.0.0&request=GetFeature&typeName=geonet:quake_search_v1&outputFormat=json''"

record Query =
  EventID :: string
  Start :: Time
  End :: Time
  MinUsedPhaseCount :: int
  MinMagnitude :: float64
  Bbox :: string

definition apos :: string where
  "apos = [CHR 0x27]"

text \<open>
  \<open>Query.url\<close>. The argument \<open>fmt_v\<close> is \<open>fmt.Sprintf("%v", x)\<close> for a float64 \<open>x\<close>;
  \<open>%s\<close> and \<open>%v\<close> of a string insert it as it is.
\<close>

definition url :: "(float64 \<Rightarrow> string) \<Rightarrow> Query \<Rightarrow> string" where
  "url fmt_v q =
     (let s =
        (if EventID q \<noteq> []
         then ''&cql_filter=publicid=='' @ apos @ EventID q @ apos
         else
           (let s0 = ''&cql_filter=origintime>='' @ apos @ Format (Start q) @ apos @
                     ''+AND+origintime<='' @ apos @ Format (End q) @ apos;
                s1 = (if MinUsedPhaseCount q \<noteq> - 999
                      then s0 @ ''+AND+usedphasecount>='' @ Itoa (MinUsedPhaseCount q)
                      else s0);
                s2 = (if \<not> float64_eq (MinMagnitude q) unsetMinMagnitude
                      then s1 @ ''+AND+magnitude>='' @ fmt_v (MinMagnitude q)
                      else s1);
                s3 = (if Bbox q \<noteq> []
                      then s2 @ ''+AND+BBOX(origin_geom,'' @ Bbox q @ '')''
                      else s2)
            in s3))
      in wfsUrl @ s)"

subsection \<open>The clause sequence of a time-window request, as the specification words it\<close>

fun join_with :: "string \<Rightarrow> string list \<Rightarrow> string" where
  "join_with sep [] = []"
| "join_with sep [x] = x"
| "join_with sep (x # y # ys) = x @ sep @ join_with sep (y # ys)"

text \<open>
  The clauses of a time-window request in the order of the specification: the two bounds
  on the origin time, then the phase count, the magnitude and the bounding box, each
  present only when its field is set.
\<close>

definition time_window_clauses :: "(float64 \<Rightarrow> string) \<Rightarrow> Query \<Rightarrow> string list" where
  "time_window_clauses fmt_v q =
     [''origintime>='' @ apos @ Format (Start q) @ apos,
      ''origintime<='' @ apos @ Format (End q) @ apos]
     @ (if MinUsedPhaseCount q \<noteq> - 999
        then [''usedphasecount>='' @ Itoa (MinUsedPhaseCount q)] else [])
     @ (if MinMagnitude q \<noteq> unsetMinMagnitude
        then [''magnitude>='' @ fmt_v (MinMagnitude q)] else [])
     @ (if Bbox q \<noteq> [] then [''BBOX(origin_geom,'' @ Bbox q @ '')''] else [])"

definition is_digit :: "char \<Rightarrow> bool" where
  "is_digit c = (c \<in> set ''0123456789'')"

definition digit_string :: "nat \<Rightarrow> string \<Rightarrow> bool" where
  "digit_string k s = (length s = k \<and> list_all is_digit s)"

text \<open>
  A string of the shape \<open>YYYY-MM-DDTHH:MM:SS\<close>: in the pattern, \<open>d\<close> stands for a
  decimal digit and every other character for itself. Nothing follows the seconds.
\<close>

definition second_precision :: "string \<Rightarrow> bool" where
  "second_precision s =
     list_all2 (\<lambda>p c. if p = CHR ''d'' then is_digit c else c = p) ''dddd-dd-ddTdd:dd:dd'' s"

section \<open>Package wfs: the range chunker\<close>

text \<open>
  \<open>Query.writeUrls\<close> copies the query behind its receiver into the local \<open>a\<close> and
  starts a goroutine that sends \<open>a.url()\<close> on the channel \<open>urls\<close>, once per year
  chunk. The state of that goroutine is the query behind the pointer \<open>q\<close>, the local
  copy \<open>a\<close>, what has been sent so far, and whether the goroutine has returned at a
  cancelled send; \<open>sends\<close> records the value of \<open>a\<close> at each send, oldest first, so
  that the strings sent are \<open>map url (sends c)\<close>.

  The argument \<open>add_year\<close> is \<open>t.AddDate(1, 0, 0)\<close> as a function of \<open>t\<close>; what it
  returns depends on the rules of the location of \<open>t\<close>.

  Every send is a \<open>select\<close> with the channel \<open>done\<close>. The argument \<open>sent\<close> gives the
  outcome of each \<open>select\<close>, counted from 0: \<open>sent k\<close> holds when the send number \<open>k\<close>
  goes through, and does not hold when \<open>done\<close> is closed there and the goroutine
  returns.
\<close>

record chunker =
  q_deref :: Query
  a_local :: Query
  sends :: "Query list"
  returned :: bool

definition send_url :: "(nat \<Rightarrow> bool) \<Rightarrow> chunker \<Rightarrow> chunker" where
  "send_url sent c =
     (if sent (length (sends c)) then c\<lparr>sends := sends c @ [a_local c]\<rparr>
      else c\<lparr>returned := True\<rparr>)"

text \<open>The body of the \<open>for\<close> loop.\<close>

definition year_step :: "(Time \<Rightarrow> Time) \<Rightarrow> (nat \<Rightarrow> bool) \<Rightarrow> chunker \<Rightarrow> chunker" where
  "year_step add_year sent c =
     (let c1 = c\<lparr>a_local := (a_local c)\<lparr>End := add_year (End (a_local c))\<rparr>\<rparr>;
          c2 = send_url sent c1
      in if returned c2 then c2
         else c2\<lparr>a_local := (a_local c2)\<lparr>Start := add_year (Start (a_local c2))\<rparr>\<rparr>)"

text \<open>
  \<open>for i := 0; i < (q.End.Year() - q.Start.Year()); i++\<close>: the bound is read from
  the query behind \<open>q\<close> before each turn.
\<close>

function year_loop :: "(Time \<Rightarrow> Time) \<Rightarrow> (nat \<Rightarrow> bool) \<Rightarrow> nat \<Rightarrow> chunker \<Rightarrow> chunker" where
  "year_loop add_year sent i c =
     (if \<not> returned c \<and> int i < Year (End (q_deref c)) - Year (Start (q_deref c))
      then year_loop add_year sent (Suc i) (year_step add_year sent c)
      else c)"
  by pat_completeness auto
termination
  by (relation "measure (\<lambda>(add_year, sent, i, c). nat (Year (End (q_deref c)) - Year (Start (q_deref c)) - int i))")
     (auto simp: year_step_def send_url_def Let_def)

declare year_loop.simps [simp del]

definition writeUrls_run :: "(Time \<Rightarrow> Time) \<Rightarrow> (nat \<Rightarrow> bool) \<Rightarrow> Query \<Rightarrow> chunker" where
  "writeUrls_run add_year sent q =
     (let c0 = \<lparr>q_deref = q, a_local = q, sends = [], returned = False\<rparr>;
          c1 = (if Year (End (q_deref c0)) - Year (Start (q_deref c0)) > 0
                then year_loop add_year sent 0 (c0\<lparr>a_local := (a_local c0)\<lparr>End := Start (a_local c0)\<rparr>\<rparr>)
                else c0)
      in if returned c1 then c1
         else send_url sent (c1\<lparr>a_local := (a_local c1)\<lparr>End := End (q_deref c1)\<rparr>\<rparr>))"

text \<open>The strings that arrive on the channel returned by \<open>writeUrls\<close>.\<close>

definition writeUrls :: "(float64 \<Rightarrow> string) \<Rightarrow> (Time \<Rightarrow> Time) \<Rightarrow> (nat \<Rightarrow> bool) \<Rightarrow> Query \<Rightarrow> string list" where
  "writeUrls fmt_v add_year sent q = map (url fmt_v) (sends (writeUrls_run add_year sent q))"

subsection \<open>The year chunks, as the specification words them\<close>

text \<open>
  With \<open>n\<close> the difference of the years of the end and of the start, or 0 when it is
  negative: for each \<open>i\<close> below \<open>n\<close> the query from the start plus \<open>i\<close> years to the
  start plus \<open>i + 1\<close> years, then the query from the start plus \<open>n\<close> years to the
  end. A year is added by \<open>add_year\<close>, that is by \<open>AddDate(1, 0, 0)\<close>, one at a
  time.
\<close>

definition year_chunk :: "(Time \<Rightarrow> Time) \<Rightarrow> Query \<Rightarrow> nat \<Rightarrow> Query" where
  "year_chunk add_year q i =
     q\<lparr>Start := (add_year ^^ i) (Start q), End := (add_year ^^ Suc i) (Start q)\<rparr>"

definition year_chunks :: "(Time \<Rightarrow> Time) \<Rightarrow> Query \<Rightarrow> Query list" where
  "year_chunks add_year q =
     (let n = nat (Year (End q) - Year (Start q))
      in map (year_chunk add_year q) [0..<n]
         @ [q\<lparr>Start := (add_year ^^ n) (Start q), End := End q\<rparr>])"

subsection \<open>The state of the goroutine between two turns of the loop\<close>

text \<open>
  The state of the goroutine after \<open>i\<close> turns of the loop: either it goes on, \<open>a\<close>
  stands at the start plus \<open>i\<close> years and the first \<open>i\<close> chunks are sent, or it has
  returned at the first send \<open>k\<close> that was cancelled, with the \<open>k\<close> chunks before it
  sent.
\<close>

definition after_turns :: "(Time \<Rightarrow> Time) \<Rightarrow> (nat \<Rightarrow> bool) \<Rightarrow> Query \<Rightarrow> nat \<Rightarrow> chunker \<Rightarrow> bool" where
  "after_turns add_year sent q i c \<longleftrightarrow>
     q_deref c = q \<and>
     (if returned c
      then \<exists>k<i. \<not> sent k \<and> (\<forall>j<k. sent j) \<and> sends c = map (year_chunk add_year q) [0..<k]
      else (\<forall>j<i. sent j) \<and> sends c = map (year_chunk add_year q) [0..<i]
           \<and> a_local c = q\<lparr>Start := (add_year ^^ i) (Start q),
                             End := (add_year ^^ i) (Start q)\<rparr>)"

section \<open>Errors, panics and the HTTP client\<close>

text \<open>
  A Go \<open>error\<close> is kept as its message; the \<open>nil\<close> error is \<open>None\<close>. A run of a
  function either returns or ends in a run-time panic; the only panic of the code under
  study is the dereference of a \<open>nil\<close> pointer, and a panic in any goroutine ends the
  process.
\<close>

type_synonym error = string

datatype 'a run = Returns 'a | Panics

text \<open>
  A response: its status code and what \<open>ioutil.ReadAll(r.Body)\<close> returns, the bytes
  read and the error of the read.
\<close>

record Response =
  StatusCode :: int
  Body :: "string \<times> error option"

text \<open>
  What \<open>client.Get\<close> returns, after the contract of package net/http: a response and no
  error; no response (\<open>nil\<close>) and an error, when the request could not be made or
  answered; or both a response and an error, when the redirect policy stopped the
  request. The client is a parameter of the fetchers: a function from the URL to the
  outcome of the request.
\<close>

datatype http_reply =
  Replied Response
| TransportError error
| PolicyError Response error

definition non200 :: "int \<Rightarrow> error" where
  "non200 code = ''Non 200 response code: '' @ Itoa code"

section \<open>Package quakeml12: the decoded document\<close>

text \<open>
  The structs of the package. A pointer into a slice of the event is kept as the index of
  the element it points at: \<open>&e.O[i]\<close> is \<open>Some i\<close>, \<open>nil\<close> is \<open>None\<close>. The maps
  \<open>Origins\<close>, \<open>Magnitudes\<close> and \<open>Picks\<close> hold such pointers, a \<open>nil\<close> map is the empty
  map. The slices \<open>O\<close>, \<open>M\<close> and \<open>P\<close> of the event are the fields \<open>ev_O\<close>, \<open>ev_M\<close>
  and \<open>ev_P\<close>.

  Package seiscompml07 declares the same structs with one more field in \<open>Origin\<close>, so
  \<open>Event\<close> takes the type of its origins as a parameter and what is said of an origin
  here holds for every extension of the record \<open>Origin\<close>.
\<close>

record WaveformID =
  NetworkCode :: string
  StationCode :: string
  LocationCode :: string
  ChannelCode :: string

record TimeValue =
  tv_Value :: Time
  tv_Uncertainty :: float64

record Mag =
  mag_Value :: float64
  mag_Uncertainty :: float64

record Magnitude =
  mg_PublicID :: string
  Mag :: Mag
  Type :: string
  MethodID :: string
  StationCount :: int

record Pick =
  pk_PublicID :: string
  pk_Time :: TimeValue
  WaveformID :: WaveformID
  PhaseHint :: string
  EvaluationMode :: string
  EvaluationStatus :: string

record Arrival =
  PickID :: string
  Phase :: string
  Azimuth :: float64
  Distance :: float64
  TimeResidual :: float64
  TimeWeight :: float64
  Pick :: "nat option"

record Origin =
  PublicID :: string
  Time :: TimeValue
  Arrivals :: "Arrival list"

record 'o Event =
  PreferredOriginID :: string
  PreferredMagnitudeID :: string
  ev_O :: "'o list"
  ev_M :: "Magnitude list"
  ev_P :: "Pick list"
  Origins :: "string \<rightharpoonup> nat"
  Picks :: "string \<rightharpoonup> nat"
  Magnitudes :: "string \<rightharpoonup> nat"
  PreferredOrigin :: "nat option"
  PreferredMagnitude :: "nat option"

record EventParameters =
  Event :: "Origin Event"

record Quakeml =
  EventParameters :: EventParameters

text \<open>The zero value of \<open>Event\<close>.\<close>

definition zeroEvent :: "'o Event" where
  "zeroEvent =
     \<lparr>PreferredOriginID = [], PreferredMagnitudeID = [], ev_O = [], ev_M = [], ev_P = [],
      Origins = Map.empty, Picks = Map.empty, Magnitudes = Map.empty,
      PreferredOrigin = None, PreferredMagnitude = None\<rparr>"

section \<open>Package quakeml12: linking\<close>

text \<open>
  \<open>for i, x := range xs { m[x.PublicID] = &xs[i] }\<close>, started at index \<open>i\<close> with the
  map \<open>m\<close>: a later element with the same identifier replaces an earlier one.
\<close>

fun index_from :: "('a \<Rightarrow> string) \<Rightarrow> nat \<Rightarrow> 'a list \<Rightarrow> (string \<rightharpoonup> nat) \<Rightarrow> (string \<rightharpoonup> nat)" where
  "index_from key i [] m = m"
| "index_from key i (x # xs) m = index_from key (Suc i) xs (m(key x \<mapsto> i))"

text \<open>
  \<open>for i, a := range o.Arrivals { o.Arrivals[i].Pick = picks[a.PickID] }\<close>: a pick
  identifier that is not a key of the map reads as \<open>nil\<close>.
\<close>

definition link_arrivals :: "(string \<rightharpoonup> nat) \<Rightarrow> Arrival list \<Rightarrow> Arrival list" where
  "link_arrivals picks as = map (\<lambda>a. a\<lparr>Pick := picks (PickID a)\<rparr>) as"

text \<open>
  \<open>Quakeml.init\<close>. The method changes the document behind its receiver and returns an
  error; the model returns the document after the call together with the error. The
  last loop ranges over \<open>PreferredOrigin.Arrivals\<close>: when the preferred origin is
  \<open>nil\<close> the selector panics.
\<close>

definition init :: "Quakeml \<Rightarrow> (Quakeml \<times> error option) run" where
  "init q =
     (let e = Event (EventParameters q) in
      if PreferredOriginID e = [] then Returns (q, Some ''Empty PreferredOriginID'')
      else if PreferredMagnitudeID e = [] then Returns (q, Some ''Empty PreferredMagnitudeID'')
      else if length (ev_O e) = 0 then Returns (q, Some ''Found no origins'')
      else if length (ev_M e) = 0 then Returns (q, Some ''Found no magnitudes'')
      else
        (let e1 = e\<lparr>Origins := index_from PublicID 0 (ev_O e) Map.empty\<rparr>;
             e2 = e1\<lparr>PreferredOrigin := Origins e1 (PreferredOriginID e1)\<rparr>;
             e3 = e2\<lparr>Magnitudes := index_from mg_PublicID 0 (ev_M e2) Map.empty\<rparr>;
             e4 = e3\<lparr>PreferredMagnitude := Magnitudes e3 (PreferredMagnitudeID e3)\<rparr>;
             e5 = e4\<lparr>Picks := index_from pk_PublicID 0 (ev_P e4) Map.empty\<rparr>
         in case PreferredOrigin e5 of
              None \<Rightarrow> Panics
            | Some k \<Rightarrow>
                (let po = ev_O e5 ! k;
                     e6 = e5\<lparr>ev_O := (ev_O e5)
                            [k := po\<lparr>Arrivals := link_arrivals (Picks e5) (Arrivals po)\<rparr>]\<rparr>
                 in Returns (q\<lparr>EventParameters := (EventParameters q)\<lparr>Event := e6\<rparr>\<rparr>, None))))"

text \<open>
  \<open>unmarshal\<close>. The argument \<open>xml_Unmarshal\<close> is \<open>xml.Unmarshal\<close> into a fresh
  \<open>Quakeml\<close>: the decoded document and the error of the decoder.
\<close>

definition unmarshal :: "(string \<Rightarrow> Quakeml \<times> error option) \<Rightarrow> string \<Rightarrow> (Origin Event \<times> error option) run" where
  "unmarshal xml_Unmarshal b =
     (case xml_Unmarshal b of
        (q, Some e) \<Rightarrow> Returns (zeroEvent, Some e)
      | (q, None) \<Rightarrow>
          (case init q of
             Panics \<Rightarrow> Panics
           | Returns (q', err) \<Rightarrow> Returns (Event (EventParameters q'), err)))"

subsection \<open>The completeness checks, as the specification words them\<close>

text \<open>
  The four conditions in their order, on the two preferred identifiers and the numbers of
  origins and of magnitudes; the value is the error of the first condition that holds.
\<close>

definition incomplete_document :: "string \<Rightarrow> string \<Rightarrow> nat \<Rightarrow> nat \<Rightarrow> error option" where
  "incomplete_document preferred_origin_id preferred_magnitude_id n_origins n_magnitudes =
     (if preferred_origin_id = [] then Some ''Empty PreferredOriginID''
      else if preferred_magnitude_id = [] then Some ''Empty PreferredMagnitudeID''
      else if n_origins = 0 then Some ''Found no origins''
      else if n_magnitudes = 0 then Some ''Found no magnitudes''
      else None)"

section \<open>Package seiscompml07: the decoded document and linking\<close>

text \<open>
  An origin of this dialect carries its magnitudes; the event parameters hold the origins
  and the picks beside the event, and \<open>init\<close> copies them into the event.
\<close>

record sc_Origin = Origin +
  sc_M :: "Magnitude list"

record sc_EventParameters =
  sc_Event :: "sc_Origin Event"
  ep_O :: "sc_Origin list"
  ep_P :: "Pick list"

record Seiscomp =
  sc_EventParameters :: sc_EventParameters

text \<open>
  \<open>Seiscomp.init\<close>. \<open>copy\<close> copies the origin structs, so the arrivals of an origin
  of the event and of the same origin of the event parameters are one array: linking the
  arrivals of the preferred origin shows in both.
\<close>

definition sc_init :: "Seiscomp \<Rightarrow> (Seiscomp \<times> error option) run" where
  "sc_init q =
     (let ep = sc_EventParameters q; e = sc_Event ep in
      if PreferredOriginID e = [] then Returns (q, Some ''Empty PreferredOriginID'')
      else if PreferredMagnitudeID e = [] then Returns (q, Some ''Empty PreferredMagnitudeID'')
      else if length (ep_O ep) = 0 then Returns (q, Some ''Found no origins'')
      else
        (let e1 = e\<lparr>ev_P := ep_P ep\<rparr>;
             e2 = e1\<lparr>ev_O := ep_O ep\<rparr>;
             e3 = e2\<lparr>ev_M := foldl (\<lambda>m origin. m @ sc_M origin) [] (ev_O e2)\<rparr>
         in if length (ev_M e3) = 0
            then Returns (q\<lparr>sc_EventParameters := ep\<lparr>sc_Event := e3\<rparr>\<rparr>, Some ''Found no magnitudes'')
            else
              (let e4 = e3\<lparr>Origins := index_from PublicID 0 (ev_O e3) Map.empty\<rparr>;
                   e5 = e4\<lparr>PreferredOrigin := Origins e4 (PreferredOriginID e4)\<rparr>;
                   e6 = e5\<lparr>Magnitudes := index_from mg_PublicID 0 (ev_M e5) Map.empty\<rparr>;
                   e7 = e6\<lparr>PreferredMagnitude := Magnitudes e6 (PreferredMagnitudeID e6)\<rparr>;
                   e8 = e7\<lparr>Picks := index_from pk_PublicID 0 (ev_P e7) Map.empty\<rparr>
               in case PreferredOrigin e8 of
                    None \<Rightarrow> Panics
                  | Some k \<Rightarrow>
                      (let po = ev_O e8 ! k;
                           po' = po\<lparr>Arrivals := link_arrivals (Picks e8) (Arrivals po)\<rparr>;
                           e9 = e8\<lparr>ev_O := (ev_O e8)[k := po']\<rparr>
                       in Returns
                            (q\<lparr>sc_EventParameters :=
                                 ep\<lparr>sc_Event := e9, ep_O := (ep_O ep)[k := po']\<rparr>\<rparr>,
                             None)))))"

definition sc_unmarshal :: "(string \<Rightarrow> Seiscomp \<times> error option) \<Rightarrow> string \<Rightarrow> (sc_Origin Event \<times> error option) run" where
  "sc_unmarshal xml_Unmarshal b =
     (case xml_Unmarshal b of
        (q, Some e) \<Rightarrow> Returns (zeroEvent, Some e)
      | (q, None) \<Rightarrow>
          (case sc_init q of
             Panics \<Rightarrow> Panics
           | Returns (q', err) \<Rightarrow> Returns (sc_Event (sc_EventParameters q'), err)))"

section \<open>Packages quakeml12 and seiscompml07: arrival rows\<close>

text \<open>
  What the rows need from the standard library: \<open>fmt.Sprintf\<close> with \<open>%v\<close> and with
  \<open>%f\<close> of a float64, \<open>Format(time.RFC3339Nano)\<close>, and \<open>t.Sub(u).Seconds()\<close>.
\<close>

record formatting =
  sprintf_v :: "float64 \<Rightarrow> string"
  sprintf_f :: "float64 \<Rightarrow> string"
  format_RFC3339Nano :: "Time \<Rightarrow> string"
  sub_seconds :: "Time \<Rightarrow> Time \<Rightarrow> float64"

text \<open>
  Reading through a pointer into the slice \<open>mem\<close>. A pointer made by \<open>init\<close> points at
  an element of the slice; the index of a pointer that is not \<open>nil\<close> is below the length.
\<close>

definition deref :: "'a list \<Rightarrow> nat option \<Rightarrow> 'a run" where
  "deref mem p =
     (case p of None \<Rightarrow> Panics | Some k \<Rightarrow> if k < length mem then Returns (mem ! k) else Panics)"

text \<open>
  A \<open>map[string]string\<close> that is filled once with distinct keys is kept as the list of
  its entries in the order of the assignments.
\<close>

type_synonym row = "(string \<times> string) list"

definition arrival_row :: "formatting \<Rightarrow> Time \<Rightarrow> Pick \<Rightarrow> Arrival \<Rightarrow> row" where
  "arrival_row f origin_time p a =
     [(''NetworkCode'', NetworkCode (WaveformID p)),
      (''StationCode'', StationCode (WaveformID p)),
      (''ChannelCode'', ChannelCode (WaveformID p)),
      (''LocationCode'', LocationCode (WaveformID p)),
      (''Phase'', Phase a),
      (''PhaseTime'', format_RFC3339Nano f (tv_Value (pk_Time p))),
      (''PhaseOriginOffset'', sprintf_f f (sub_seconds f (tv_Value (pk_Time p)) origin_time)),
      (''TimeResidual'', sprintf_f f (TimeResidual a)),
      (''TimeWeight'', sprintf_f f (TimeWeight a))]"

text \<open>
  The loop of \<open>ArrivalMap\<close> over the arrivals; \<open>picks\<close> is the slice that the \<open>Pick\<close>
  pointers of the arrivals point into. The first arrival whose pointer is \<open>nil\<close> ends
  the run with a panic at \<open>a.Pick.WaveformID\<close>.
\<close>

fun arrival_rows :: "formatting \<Rightarrow> Pick list \<Rightarrow> Time \<Rightarrow> Arrival list \<Rightarrow> row list run" where
  "arrival_rows f picks origin_time [] = Returns []"
| "arrival_rows f picks origin_time (a # as) =
     (case deref picks (Pick a) of
        Panics \<Rightarrow> Panics
      | Returns p \<Rightarrow>
          (case arrival_rows f picks origin_time as of
             Panics \<Rightarrow> Panics
           | Returns rows \<Rightarrow> Returns (arrival_row f origin_time p a # rows)))"

definition ArrivalMap :: "formatting \<Rightarrow> Pick list \<Rightarrow> 'a Origin_scheme \<Rightarrow> row list run" where
  "ArrivalMap f picks o' = arrival_rows f picks (tv_Value (Time o')) (Arrivals o')"

section \<open>Packages quakeml12 and seiscompml07: the workers and the tolerant aggregator\<close>

definition quakeMLUrl :: string where
  "quakeMLUrl = ''http://quakeml.geonet.org.nz/quakeml/1.2/''"

definition seiscompURL :: string where
  "seiscompURL = ''http://seiscompml07.s3-website-ap-southeast-2.amazonaws.com/''"

text \<open>The struct \<open>result\<close> of both packages; the event type is the package's.\<close>

record 'e result =
  event :: 'e
  publicID :: string
  err :: "error option"

text \<open>
  One turn of the loop of \<open>fetcher\<close> up to the \<open>select\<close>: the result it builds for
  the identifier it received. \<open>defer r.Body.Close()\<close> stands before the test of
  \<open>err\<close> and evaluates \<open>r.Body\<close> when the statement is reached: with no response
  (\<open>r\<close> is \<open>nil\<close>) the selector panics.
\<close>

definition fetch :: "(string \<Rightarrow> http_reply) \<Rightarrow> (string \<Rightarrow> Quakeml \<times> error option) \<Rightarrow> string \<Rightarrow> Origin Event result run" where
  "fetch client_Get xml_Unmarshal publicid =
     (case client_Get (quakeMLUrl @ publicid) of
        TransportError e \<Rightarrow> Panics
      | PolicyError r e \<Rightarrow> Returns \<lparr>event = zeroEvent, publicID = publicid, err = Some e\<rparr>
      | Replied r \<Rightarrow>
          (case Body r of
             (b, Some e) \<Rightarrow> Returns \<lparr>event = zeroEvent, publicID = publicid, err = Some e\<rparr>
           | (b, None) \<Rightarrow>
               if StatusCode r \<noteq> 200
               then Returns \<lparr>event = zeroEvent, publicID = publicid,
                              err = Some (non200 (StatusCode r))\<rparr>
               else
                 (case unmarshal xml_Unmarshal b of
                    Panics \<Rightarrow> Panics
                  | Returns (e, err') \<Rightarrow> Returns \<lparr>event = e, publicID = publicid, err = err'\<rparr>)))"

definition sc_fetch :: "(string \<Rightarrow> http_reply) \<Rightarrow> (string \<Rightarrow> Seiscomp \<times> error option) \<Rightarrow> string \<Rightarrow> sc_Origin Event result run" where
  "sc_fetch client_Get xml_Unmarshal publicid =
     (case client_Get (seiscompURL @ publicid @ ''.xml'') of
        TransportError e \<Rightarrow> Panics
      | PolicyError r e \<Rightarrow> Returns \<lparr>event = zeroEvent, publicID = publicid, err = Some e\<rparr>
      | Replied r \<Rightarrow>
          (case Body r of
             (b, Some e) \<Rightarrow> Returns \<lparr>event = zeroEvent, publicID = publicid, err = Some e\<rparr>
           | (b, None) \<Rightarrow>
               if StatusCode r \<noteq> 200
               then Returns \<lparr>event = zeroEvent, publicID = publicid,
                              err = Some (non200 (StatusCode r))\<rparr>
               else
                 (case sc_unmarshal xml_Unmarshal b of
                    Panics \<Rightarrow> Panics
                  | Returns (e, err') \<Rightarrow> Returns \<lparr>event = e, publicID = publicid, err = err'\<rparr>)))"

text \<open>
  The loop of a worker, \<open>for target := range targets { ...; select { case c <- r: case
  <-done: return } }\<close>, over the targets this worker receives. Each target comes with
  the outcome of its \<open>select\<close>: \<open>True\<close> when the result is sent on \<open>c\<close>, \<open>False\<close>
  when \<open>done\<close> is closed and the worker returns. The value is the results sent, in
  order, and how the worker ended.
\<close>

datatype worker_exit = Exited | Crashed

fun worker :: "(string \<Rightarrow> 'r run) \<Rightarrow> (string \<times> bool) list \<Rightarrow> 'r list \<times> worker_exit" where
  "worker body [] = ([], Exited)"
| "worker body ((target, sent) # rest) =
     (case body target of
        Panics \<Rightarrow> ([], Crashed)
      | Returns r \<Rightarrow>
          if sent then (case worker body rest of (rs, x) \<Rightarrow> (r # rs, x)) else ([], Exited))"

definition fetcher :: "(string \<Rightarrow> http_reply) \<Rightarrow> (string \<Rightarrow> Quakeml \<times> error option) \<Rightarrow> (string \<times> bool) list \<Rightarrow> Origin Event result list \<times> worker_exit" where
  "fetcher client_Get xml_Unmarshal = worker (fetch client_Get xml_Unmarshal)"

definition sc_fetcher :: "(string \<Rightarrow> http_reply) \<Rightarrow> (string \<Rightarrow> Seiscomp \<times> error option) \<Rightarrow> (string \<times> bool) list \<Rightarrow> sc_Origin Event result list \<times> worker_exit" where
  "sc_fetcher client_Get xml_Unmarshal = worker (sc_fetch client_Get xml_Unmarshal)"

text \<open>
  The loop \<open>for r := range c\<close> of \<open>Get\<close> over the results in the order in which they
  arrive. The map \<open>quakeml\<close> is kept as the list of its entries with distinct keys
  (\<open>AList.update\<close> replaces the value of a key that is present), so that \<open>len\<close> is the
  length; the lines written with package log are collected in a list.
\<close>

fun Get_loop :: "'e result list \<Rightarrow> (string \<times> 'e) list \<Rightarrow> nat \<Rightarrow> string list \<Rightarrow> (string \<times> 'e) list \<times> string list" where
  "Get_loop [] quakeml i lg = (quakeml, lg)"
| "Get_loop (r # rs) quakeml i lg =
     (let (quakeml1, i1, lg1) =
            (case err r of
               Some e \<Rightarrow> (quakeml, i, lg @ [''Error fetching data for '' @ publicID r, e])
             | None \<Rightarrow> (AList.update (publicID r) (event r) quakeml, i + 1, lg));
          (i2, lg2) =
            (if i1 = 50
             then (0, lg1 @ [''Downloaded '' @ Itoa (int (length quakeml1)) @ '' quakes''])
             else (i1, lg1))
      in Get_loop rs quakeml1 i2 lg2)"

text \<open>The results of the workers, unless one of them panics.\<close>

fun all_returned :: "'a run list \<Rightarrow> 'a list run" where
  "all_returned [] = Returns []"
| "all_returned (Panics # xs) = Panics"
| "all_returned (Returns x # xs) =
     (case all_returned xs of Panics \<Rightarrow> Panics | Returns ys \<Rightarrow> Returns (x # ys))"

text \<open>
  \<open>Get\<close>. The channel \<open>done\<close> is closed when \<open>Get\<close> returns and not before, so the
  producer sends every identifier, every \<open>select\<close> of a worker sends its result, and the
  loop of \<open>Get\<close> ends when all workers have returned. The argument \<open>arrival\<close> is the
  list of the identifiers given to \<open>Get\<close> in the order in which their results reach the
  loop, which the scheduler decides. The value is the map returned and the lines logged;
  a worker that panics ends the process and \<open>Get\<close> does not return.
\<close>

definition Get :: "(string \<Rightarrow> http_reply) \<Rightarrow> (string \<Rightarrow> Quakeml \<times> error option) \<Rightarrow> string list \<Rightarrow> ((string \<times> Origin Event) list \<times> string list) run" where
  "Get client_Get xml_Unmarshal arrival =
     (case all_returned (map (fetch client_Get xml_Unmarshal) arrival) of
        Panics \<Rightarrow> Panics
      | Returns rs \<Rightarrow> Returns (Get_loop rs [] 0 []))"

definition sc_Get :: "(string \<Rightarrow> http_reply) \<Rightarrow> (string \<Rightarrow> Seiscomp \<times> error option) \<Rightarrow> string list \<Rightarrow> ((string \<times> sc_Origin Event) list \<times> string list) run" where
  "sc_Get client_Get xml_Unmarshal arrival =
     (case all_returned (map (sc_fetch client_Get xml_Unmarshal) arrival) of
        Panics \<Rightarrow> Panics
      | Returns rs \<Rightarrow> Returns (Get_loop rs [] 0 []))"

section \<open>Package wfs: the workers and the strict aggregator\<close>

record Properties =
  ft_PublicID :: string
  EventType :: string
  OriginTime :: string
  ModificationTime :: string
  Latitude :: float64
  Longitude :: float64
  Depth :: float64
  ft_Magnitude :: float64
  EvaluationMethod :: string
  ft_EvaluationStatus :: string
  ft_EvaluationMode :: string
  EarthModel :: string
  DepthType :: string
  OriginError :: float64
  UsedPhaseCount :: int
  UsedStationCount :: int
  MinimumDistance :: float64
  AzimuthalGap :: float64
  MagnitudeType :: string
  MagnitudeUncertainty :: float64
  MagnitudeStationCount :: int

record Feature =
  Properties :: Properties

text \<open>The struct \<open>result\<close> of package wfs: it has no field for the request.\<close>

record wfs_result =
  features :: "Feature list"
  wfs_err :: "error option"

text \<open>
  One turn of the loop of the wfs \<open>fetcher\<close> up to the \<open>select\<close>. The body is read
  and closed only when \<open>client.Get\<close> returned no error. The argument
  \<open>json_Unmarshal\<close> is the function \<open>unmarshal\<close> of the package: the features decoded
  by \<open>json.Unmarshal\<close> and the error of the decoder.
\<close>

definition wfs_fetch :: "(string \<Rightarrow> http_reply) \<Rightarrow> (string \<Rightarrow> Feature list \<times> error option) \<Rightarrow> string \<Rightarrow> wfs_result" where
  "wfs_fetch client_Get json_Unmarshal u =
     (case client_Get u of
        TransportError e \<Rightarrow> \<lparr>features = [], wfs_err = Some e\<rparr>
      | PolicyError r e \<Rightarrow> \<lparr>features = [], wfs_err = Some e\<rparr>
      | Replied r \<Rightarrow>
          (case Body r of
             (b, Some e) \<Rightarrow> \<lparr>features = [], wfs_err = Some e\<rparr>
           | (b, None) \<Rightarrow>
               if StatusCode r \<noteq> 200
               then \<lparr>features = [], wfs_err = Some (non200 (StatusCode r))\<rparr>
               else (case json_Unmarshal b of (fs, e) \<Rightarrow> \<lparr>features = fs, wfs_err = e\<rparr>)))"

definition wfs_fetcher :: "(string \<Rightarrow> http_reply) \<Rightarrow> (string \<Rightarrow> Feature list \<times> error option) \<Rightarrow> (string \<times> bool) list \<Rightarrow> wfs_result list \<times> worker_exit" where
  "wfs_fetcher client_Get json_Unmarshal =
     worker (\<lambda>u. Returns (wfs_fetch client_Get json_Unmarshal u))"

text \<open>
  The loop \<open>for r := range c\<close> of \<open>search\<close> over the results in the order in which
  they arrive; \<open>res\<close> is the map built so far, kept as the list of its entries with
  distinct keys. The value is the pair that \<open>search\<close> returns: the map or \<open>nil\<close>, and
  the error or \<open>nil\<close>. The counter \<open>quakes\<close> feeds the log only and is left out.
\<close>

fun search_loop :: "wfs_result list \<Rightarrow> (string \<times> Feature) list \<Rightarrow> (string \<times> Feature) list option \<times> error option" where
  "search_loop [] res = (Some res, None)"
| "search_loop (r # rs) res =
     (case wfs_err r of
        Some e \<Rightarrow> (None, Some e)
      | None \<Rightarrow>
          search_loop rs
            (foldl (\<lambda>m feature. AList.update (ft_PublicID (Properties feature)) feature m)
               res (features r)))"

text \<open>
  \<open>Query.search\<close>. The argument \<open>arrival\<close> is the list of the URLs written by
  \<open>writeUrls\<close> in the order in which the results of their requests are offered to the
  loop, which the scheduler decides. When the loop returns early, \<open>done\<close> is closed and
  the results not yet received are never read.
\<close>

definition search :: "(string \<Rightarrow> http_reply) \<Rightarrow> (string \<Rightarrow> Feature list \<times> error option) \<Rightarrow> string list \<Rightarrow> (string \<times> Feature) list option \<times> error option" where
  "search client_Get json_Unmarshal arrival =
     search_loop (map (wfs_fetch client_Get json_Unmarshal) arrival) []"

definition event_row :: "formatting \<Rightarrow> string \<Rightarrow> Feature \<Rightarrow> row" where
  "event_row f p ft =
     [(''EventID'', p),
      (''EventType'', EventType (Properties ft)),
      (''OriginTime'', OriginTime (Properties ft)),
      (''ModificationTime'', ModificationTime (Properties ft)),
      (''Latitude'', sprintf_v f (Latitude (Properties ft))),
      (''Longitude'', sprintf_v f (Longitude (Properties ft))),
      (''Depth'', sprintf_f f (Depth (Properties ft))),
      (''Magnitude'', sprintf_v f (ft_Magnitude (Properties ft))),
      (''EvaluationMethod'', EvaluationMethod (Properties ft)),
      (''EvaluationStatus'', ft_EvaluationStatus (Properties ft)),
      (''EvaluationMode'', ft_EvaluationMode (Properties ft)),
      (''EarthModel'', EarthModel (Properties ft)),
      (''DepthType'', DepthType (Properties ft)),
      (''OriginError'', sprintf_v f (OriginError (Properties ft))),
      (''UsedPhaseCount'', Itoa (UsedPhaseCount (Properties ft))),
      (''UsedStationCount'', Itoa (UsedStationCount (Properties ft))),
      (''MinimumDistance'', sprintf_v f (MinimumDistance (Properties ft))),
      (''AzimuthalGap'', sprintf_v f (AzimuthalGap (Properties ft))),
      (''MagnitudeType'', MagnitudeType (Properties ft)),
      (''MagnitudeUncertainty'', sprintf_v f (MagnitudeUncertainty (Properties ft))),
      (''MagnitudeStationCount'', Itoa (MagnitudeStationCount (Properties ft)))]"

text \<open>
  \<open>Query.Get\<close>: the rows of the features found, or \<open>nil\<close> and the error of
  \<open>search\<close>. Go leaves the order of \<open>range\<close> over a map open; the rows are given in
  the order of the list that keeps the map.
\<close>

definition wfs_Get :: "formatting \<Rightarrow> (string \<Rightarrow> http_reply) \<Rightarrow> (string \<Rightarrow> Feature list \<times> error option) \<Rightarrow> string list \<Rightarrow> row list option \<times> error option" where
  "wfs_Get f client_Get json_Unmarshal arrival =
     (case search client_Get json_Unmarshal arrival of
        (m, Some e) \<Rightarrow> (None, Some e)
      | (m, None) \<Rightarrow>
          (Some (map (\<lambda>(p, ft). event_row f p ft) (case m of None \<Rightarrow> [] | Some al \<Rightarrow> al)), None))"

section \<open>Values of the tests and of the examples\<close>

text \<open>The start and the end of \<open>TestURL\<close>: 2014-01-27T03:06:25Z and 2014-01-27T04:06:25Z.\<close>

definition t030625 :: Time where
  "t030625 = \<lparr>tm_year = 2014, tm_month = 1, tm_day = 27, tm_hour = 3, tm_min = 6, tm_sec = 25,
              tm_nsec = 0, tm_offset = 0\<rparr>"

definition t040625 :: Time where
  "t040625 = \<lparr>tm_year = 2014, tm_month = 1, tm_day = 27, tm_hour = 4, tm_min = 6, tm_sec = 25,
              tm_nsec = 0, tm_offset = 0\<rparr>"

text \<open>
  A document with one origin \<open>o1\<close> that has one arrival of the pick \<open>p1\<close>, and one
  magnitude \<open>m1\<close>; the preferred identifiers and the picks are arguments. The second is
  the same document in the dialect of seiscompml07.
\<close>

definition pick1 :: Pick where
  "pick1 = \<lparr>pk_PublicID = ''p1'', pk_Time = \<lparr>tv_Value = t040625, tv_Uncertainty = 0\<rparr>,
             WaveformID = \<lparr>NetworkCode = ''NZ'', StationCode = ''WVZ'', LocationCode = ''10'',
                           ChannelCode = ''HHZ''\<rparr>,
             PhaseHint = ''P'', EvaluationMode = ''automatic'', EvaluationStatus = []\<rparr>"

definition arrival1 :: Arrival where
  "arrival1 = \<lparr>PickID = ''p1'', Phase = ''P'', Azimuth = 0, Distance = 0, TimeResidual = 0,
                TimeWeight = 0, Pick = None\<rparr>"

definition origin1 :: Origin where
  "origin1 = \<lparr>PublicID = ''o1'', Time = \<lparr>tv_Value = t030625, tv_Uncertainty = 0\<rparr>,
               Arrivals = [arrival1]\<rparr>"

definition magnitude1 :: Magnitude where
  "magnitude1 = \<lparr>mg_PublicID = ''m1'', Mag = \<lparr>mag_Value = 0, mag_Uncertainty = 0\<rparr>, Type = ''M'',
                  MethodID = ''weighted average'', StationCount = 7\<rparr>"

definition document :: "string \<Rightarrow> string \<Rightarrow> Pick list \<Rightarrow> Quakeml" where
  "document preferred_origin_id preferred_magnitude_id ps =
     \<lparr>EventParameters = \<lparr>Event =
        zeroEvent\<lparr>PreferredOriginID := preferred_origin_id,
                  PreferredMagnitudeID := preferred_magnitude_id,
                  ev_O := [origin1], ev_M := [magnitude1], ev_P := ps\<rparr>\<rparr>\<rparr>"

definition sc_document :: "string \<Rightarrow> string \<Rightarrow> Pick list \<Rightarrow> Seiscomp" where
  "sc_document preferred_origin_id preferred_magnitude_id ps =
     \<lparr>sc_EventParameters =
        \<lparr>sc_Event = zeroEvent\<lparr>PreferredOriginID := preferred_origin_id,
                               PreferredMagnitudeID := preferred_magnitude_id\<rparr>,
         ep_O = [Origin.extend origin1 (sc_Origin.fields [magnitude1])], ep_P = ps\<rparr>\<rparr>"

text \<open>
  \<open>t.AddDate(1, 0, 0)\<close> for a time in UTC or in a location of fixed offset, as the
  times of the examples are: the same calendar fields one year later at the same offset.
  \<open>time.Date\<close> normalises the fields, and the only date that a step of one year can put
  out of range there is 29 February, which becomes 1 March.
\<close>

definition AddDate_fixed :: "Time \<Rightarrow> Time" where
  "AddDate_fixed t =
     (if tm_month t = 2 \<and> tm_day t = 29 \<and> \<not> isLeap (tm_year t + 1)
      then t\<lparr>tm_year := tm_year t + 1, tm_month := 3, tm_day := 1\<rparr>
      else t\<lparr>tm_year := tm_year t + 1\<rparr>)"

text \<open>
  A query over two years, from 2012-01-27T03:06:25Z to 2014-01-27T04:06:25Z, and a query
  whose start 2014-01-01T00:30:00+01:00 and end 2013-12-31T23:45:00Z stand at different
  offsets.
\<close>

definition span2012_2014 :: Query where
  "span2012_2014 =
     \<lparr>EventID = [], Start = t030625\<lparr>tm_year := 2012\<rparr>, End = t040625,
      MinUsedPhaseCount = 60, MinMagnitude = unsetMinMagnitude, Bbox = ''174,-41,175,-42''\<rparr>"

definition across_zones :: Query where
  "across_zones =
     \<lparr>EventID = [],
      Start = \<lparr>tm_year = 2014, tm_month = 1, tm_day = 1, tm_hour = 0, tm_min = 30, tm_sec = 0,
               tm_nsec = 0, tm_offset = 3600\<rparr>,
      End = \<lparr>tm_year = 2013, tm_month = 12, tm_day = 31, tm_hour = 23, tm_min = 45, tm_sec = 0,
             tm_nsec = 0, tm_offset = 0\<rparr>,
      MinUsedPhaseCount = - 999, MinMagnitude = unsetMinMagnitude, Bbox = []\<rparr>"

text \<open>A stand-in for the formatting of the standard library, for the examples.\<close>

definition example_formatting :: formatting where
  "example_formatting =
     \<lparr>sprintf_v = (\<lambda>x. ''v''), sprintf_f = (\<lambda>x. ''f''),
      format_RFC3339Nano = (\<lambda>t. Format t @ ''Z''), sub_seconds = (\<lambda>t u. 0)\<rparr>"

text \<open>
  A feature, and a client with its decoders: the requests for \<open>good\<close> are answered
  with status 200, those for \<open>missing\<close> and for \<open>gone\<close> with status 404, and every
  other request fails in transport. The error of a failed request is a \<open>*url.Error\<close>,
  whose text names the operation and the URL before the cause.
\<close>

definition refused :: "string \<Rightarrow> error" where
  "refused u = ''Get '' @ [CHR 0x22] @ u @ [CHR 0x22] @ '': dial tcp: connection refused''"

definition feature1 :: Feature where
  "feature1 =
     \<lparr>Properties =
        \<lparr>ft_PublicID = ''2014p549333'', EventType = [], OriginTime = ''2014-07-23T06:04:43.625Z'',
         ModificationTime = ''2014-07-23T06:07:12.232Z'', Latitude = 0, Longitude = 0, Depth = 0,
         ft_Magnitude = 0, EvaluationMethod = ''NonLinLoc'', ft_EvaluationStatus = [],
         ft_EvaluationMode = ''automatic'', EarthModel = ''nz3drx'', DepthType = [],
         OriginError = 0, UsedPhaseCount = 23, UsedStationCount = 23, MinimumDistance = 0,
         AzimuthalGap = 0, MagnitudeType = ''M'', MagnitudeUncertainty = 0,
         MagnitudeStationCount = 13\<rparr>\<rparr>"

definition example_client :: "string \<Rightarrow> http_reply" where
  "example_client u =
     (if u = ''good'' \<or> u = quakeMLUrl @ ''good'' \<or> u = seiscompURL @ ''good.xml''
      then Replied \<lparr>StatusCode = 200, Body = (''body'', None)\<rparr>
      else if u = ''missing'' \<or> u = ''gone'' \<or> u = quakeMLUrl @ ''missing''
              \<or> u = seiscompURL @ ''missing.xml''
      then Replied \<lparr>StatusCode = 404, Body = ([], None)\<rparr>
      else TransportError (refused u))"

definition example_json :: "string \<Rightarrow> Feature list \<times> error option" where
  "example_json b = ([feature1], None)"

definition example_xml :: "string \<Rightarrow> Quakeml \<times> error option" where
  "example_xml b = (document ''o1'' ''m1'' [pick1], None)"

definition example_sc_xml :: "string \<Rightarrow> Seiscomp \<times> error option" where
  "example_sc_xml b = (sc_document ''o1'' ''m1'' [pick1], None)"

section \<open>The request builder: properties\<close>

lemma float64_eq_unset: "float64_eq w unsetMinMagnitude \<longleftrightarrow> w = unsetMinMagnitude"
  by (auto simp: float64_eq_def unsetMinMagnitude_def isNaN_def isZero_def)

lemma digits_length: "0 < k \<Longrightarrow> n < 10 ^ k \<Longrightarrow> length (digits n) \<le> k"
proof (induction k arbitrary: n)
  case 0
  then show ?case by simp
next
  case (Suc k)
  show ?case
  proof (cases "n < 10")
    case True
    then show ?thesis by (simp add: digits.simps [of n])
  next
    case False
    with Suc.prems have k: "0 < k" by (cases k) auto
    from Suc.prems have "n div 10 < 10 ^ k" by (simp add: less_mult_imp_div_less mult.commute)
    with Suc.IH k have "length (digits (n div 10)) \<le> k" by blast
    with False show ?thesis by (simp add: digits.simps [of n])
  qed
qed

lemma digit_nth: "k < 10 \<Longrightarrow> is_digit (''0123456789'' ! k)"
  unfolding is_digit_def by (rule nth_mem) simp

lemma digits_all: "list_all is_digit (digits n)"
proof (induction n rule: digits.induct)
  case (1 n)
  show ?case
  proof (cases "n < 10")
    case True
    then show ?thesis by (simp add: digits.simps [of n] digit_nth)
  next
    case False
    with 1 show ?thesis by (simp add: digits.simps [of n] digit_nth)
  qed
qed

lemma appendInt_digit_string:
  assumes "0 \<le> x" "x < 10 ^ w" "0 < w"
  shows "digit_string w (appendInt x w)"
proof -
  have "nat \<bar>x\<bar> < 10 ^ w" using assms by (simp add: nat_less_iff)
  then have "length (digits (nat \<bar>x\<bar>)) \<le> w" using assms(3) by (rule digits_length [rotated])
  moreover have "is_digit (CHR ''0'')" by (simp add: is_digit_def)
  then have "list_all is_digit (replicate k (CHR ''0''))" for k
    by (simp add: list_all_iff)
  ultimately show ?thesis using assms(1)
    by (simp add: digit_string_def appendInt_def Let_def digits_all)
qed

lemma daysIn_le: "daysIn m y \<le> 31"
  by (simp add: daysIn_def)

lemma digit_string_pattern:
  "digit_string k s \<Longrightarrow>
   list_all2 (\<lambda>p c. if p = CHR ''d'' then is_digit c else c = p) (replicate k (CHR ''d'')) s"
  by (simp add: digit_string_def list_all2_conv_all_nth list_all_length)

lemma Format_second_precision:
  assumes "valid_Time t" "0 \<le> tm_year t" "tm_year t \<le> 9999"
  shows "second_precision (Format t)"
proof -
  let ?P = "\<lambda>p c. if p = CHR ''d'' then is_digit c else c = p"
  have d: "tm_day t \<le> 31" using assms(1) daysIn_le [of "tm_month t" "tm_year t"]
    by (simp add: valid_Time_def)
  have y: "list_all2 ?P ''dddd'' (appendInt (tm_year t) 4)"
    using digit_string_pattern [OF appendInt_digit_string [of "tm_year t" 4]] assms
    by (simp add: numeral_eq_Suc)
  have two: "list_all2 ?P ''dd'' (appendInt (int n) 2)" if "n < 100" for n
    using digit_string_pattern [OF appendInt_digit_string [of "int n" 2]] that
    by (simp add: numeral_eq_Suc)
  have sep: "list_all2 ?P [c] [c]" if "c \<noteq> CHR ''d''" for c
    using that by simp
  have "list_all2 ?P (''dddd'' @ ''-'' @ ''dd'' @ ''-'' @ ''dd'' @ ''T'' @ ''dd'' @ '':'' @ ''dd'' @ '':'' @ ''dd'')
          (Format t)"
    unfolding Format_def using assms(1) d
    by (intro list_all2_appendI y two sep) (simp_all add: valid_Time_def)
  then show ?thesis by (simp add: second_precision_def)
qed

lemma url_clauses_refine:
  "EventID q = [] \<Longrightarrow>
   url fmt_v q = wfsUrl @ ''&cql_filter='' @ join_with ''+AND+'' (time_window_clauses fmt_v q)"
  by (simp add: url_def Let_def time_window_clauses_def float64_eq_unset)

text \<open>
  C8. A query with a non-empty \<open>EventID\<close> is rendered as the base endpoint followed by
  the equality filter on the public identifier and nothing else: whatever the start, the
  end, the minimum phase count, the minimum magnitude and the bounding box are set to,
  the request string is the same.
\<close>

theorem url_event_id:
  assumes "EventID q \<noteq> []"
  shows "url fmt_v q = wfsUrl @ ''&cql_filter=publicid=='' @ apos @ EventID q @ apos
       \<and> url fmt_v' (q\<lparr>Start := s, End := e, MinUsedPhaseCount := p, MinMagnitude := m, Bbox := b\<rparr>)
           = url fmt_v q"
  using assms by (simp add: url_def)

theorem url_event_id_witness:
  "url (\<lambda>x. []) \<lparr>EventID = ''2014p562279'', Start = t030625, End = t040625,
                  MinUsedPhaseCount = 0, MinMagnitude = 0, Bbox = []\<rparr>
     = wfsUrl @ ''&cql_filter=publicid=='2014p562279'' @ apos
   \<and> url (\<lambda>x. []) \<lparr>EventID = ''2014p562279'', Start = t040625, End = t030625,
                  MinUsedPhaseCount = 60, MinMagnitude = 0x4018666666666666, Bbox = ''174,-41,175,-42''\<rparr>
     = url (\<lambda>x. []) \<lparr>EventID = ''2014p562279'', Start = t030625, End = t040625,
                  MinUsedPhaseCount = 0, MinMagnitude = 0, Bbox = []\<rparr>"
  using url_event_id [where q = "\<lparr>EventID = ''2014p562279'', Start = t030625, End = t040625,
                  MinUsedPhaseCount = 0, MinMagnitude = 0, Bbox = []\<rparr>" and fmt_v = "\<lambda>x. []"
                  and fmt_v' = "\<lambda>x. []" and s = t040625 and e = t030625 and p = 60
                  and m = "0x4018666666666666" and b = "''174,-41,175,-42''"]
  by (simp add: apos_def)

text \<open>
  C3. A query with an empty \<open>EventID\<close> is rendered as the base endpoint, the prefix
  \<open>&cql_filter=\<close> and the clauses of \<open>time_window_clauses\<close> joined with
  \<open>+AND+\<close>: the lower bound on the start, the upper bound on the end, then the phase
  count unless it is -999, the magnitude unless it is -999.9, and the bounding box,
  inserted as it is, unless it is empty. A time whose year has four digits is rendered
  as \<open>YYYY-MM-DDTHH:MM:SS\<close> with nothing after the seconds.
\<close>

theorem url_time_window:
  assumes "EventID q = []"
  shows "url fmt_v q = wfsUrl @ ''&cql_filter='' @ join_with ''+AND+'' (time_window_clauses fmt_v q)
       \<and> (valid_Time (Start q) \<and> 0 \<le> Year (Start q) \<and> Year (Start q) \<le> 9999
            \<longrightarrow> second_precision (Format (Start q)))
       \<and> (valid_Time (End q) \<and> 0 \<le> Year (End q) \<and> Year (End q) \<le> 9999
            \<longrightarrow> second_precision (Format (End q)))"
  using assms by (simp add: url_clauses_refine Format_second_precision Year_def)

lemma Format_t030625: "Format t030625 = ''2014-01-27T03:06:25''"
  by (simp add: t030625_def Format_def appendInt_def digits.simps Let_def)

lemma Format_t040625: "Format t040625 = ''2014-01-27T04:06:25''"
  by (simp add: t040625_def Format_def appendInt_def digits.simps Let_def)

theorem url_time_window_witness:
  "url (\<lambda>x. ''6.1'') \<lparr>EventID = [], Start = t030625, End = t040625,
                  MinUsedPhaseCount = 60, MinMagnitude = 0x4018666666666666, Bbox = ''174,-41,175,-42''\<rparr>
     = wfsUrl @ ''&cql_filter=origintime>='2014-01-27T03:06:25'+AND+origintime<='2014-01-27T04:06:25'+AND+usedphasecount>=60+AND+magnitude>=6.1+AND+BBOX(origin_geom,174,-41,175,-42)''
   \<and> second_precision ''2014-01-27T03:06:25'' \<and> second_precision ''2014-01-27T04:06:25''"
  using url_time_window [where q = "\<lparr>EventID = [], Start = t030625, End = t040625,
                  MinUsedPhaseCount = 60, MinMagnitude = 0x4018666666666666, Bbox = ''174,-41,175,-42''\<rparr>"
                  and fmt_v = "\<lambda>x. ''6.1''"]
  by (simp add: time_window_clauses_def Format_t030625 Format_t040625 apos_def Itoa_def
      appendInt_def digits.simps Let_def unsetMinMagnitude_def Year_def valid_Time_def daysIn_def)
     (simp add: t030625_def t040625_def)


section \<open>The calendar: properties\<close>

lemma div_step:
  assumes "0 < k"
  shows "(y::int) div k = (y - 1) div k + (if y mod k = 0 then 1 else 0)"
proof (cases "y mod k = 0")
  case True
  then have "y = k * (y div k)" by auto
  then have "y - 1 = k * (y div k - 1) + (k - 1)"
    by (simp add: algebra_simps)
  moreover have "0 \<le> k - 1" "k - 1 < k" using assms by simp_all
  ultimately have "(y - 1) div k = y div k - 1"
    by (rule int_div_pos_eq)
  with True show ?thesis by simp
next
  case False
  have "0 \<le> y mod k" "y mod k < k" using assms by simp_all
  with False have r: "0 \<le> y mod k - 1" "y mod k - 1 < k" by simp_all
  have "y - 1 = k * (y div k) + (y mod k - 1)" by simp
  then have "(y - 1) div k = y div k"
    using r by (rule int_div_pos_eq)
  with False show ?thesis by simp
qed

lemma daysSinceEpoch_Suc:
  "daysSinceEpoch (y + 1) = daysSinceEpoch y + (if isLeap y then 366 else 365)"
proof -
  have a: "y mod 100 = 0" if "y mod 400 = 0"
  proof -
    from that have "400 dvd y" by (simp add: mod_eq_0_iff_dvd)
    moreover have "(100::int) dvd 400" by simp
    ultimately have "100 dvd y" by (rule dvd_trans [rotated])
    then show ?thesis by (simp add: mod_eq_0_iff_dvd)
  qed
  have b: "y mod 4 = 0" if "y mod 100 = 0"
  proof -
    from that have "100 dvd y" by (simp add: mod_eq_0_iff_dvd)
    moreover have "(4::int) dvd 100" by simp
    ultimately have "4 dvd y" by (rule dvd_trans [rotated])
    then show ?thesis by (simp add: mod_eq_0_iff_dvd)
  qed
  show ?thesis
  proof -
    have "daysSinceEpoch (y + 1) - daysSinceEpoch y
        = 365 + (y div 4 - (y - 1) div 4) - (y div 100 - (y - 1) div 100) + (y div 400 - (y - 1) div 400)"
      by (simp add: daysSinceEpoch_def)
    also have "y div 4 - (y - 1) div 4 = (if y mod 4 = 0 then 1 else 0)"
      using div_step [of 4 y] by simp
    also have "y div 100 - (y - 1) div 100 = (if y mod 100 = 0 then 1 else 0)"
      using div_step [of 100 y] by simp
    also have "y div 400 - (y - 1) div 400 = (if y mod 400 = 0 then 1 else 0)"
      using div_step [of 400 y] by simp
    finally have "daysSinceEpoch (y + 1) - daysSinceEpoch y
        = 365 + (if y mod 4 = 0 then 1 else 0) - (if y mod 100 = 0 then 1 else 0)
            + (if y mod 400 = 0 then 1 else 0)" .
    moreover have "\<dots> = (if isLeap y then 366 else 365)"
      using a b by (cases "y mod 400 = 0"; cases "y mod 100 = 0"; cases "y mod 4 = 0")
        (simp_all add: isLeap_def)
    ultimately show ?thesis by simp
  qed
qed

lemma daysSinceEpoch_mono_aux:
  "daysSinceEpoch y \<le> daysSinceEpoch (y + int n)"
proof (induction n)
  case 0
  then show ?case by simp
next
  case (Suc n)
  have "daysSinceEpoch (y + int n) \<le> daysSinceEpoch (y + int n + 1)"
    by (simp add: daysSinceEpoch_Suc)
  moreover have "y + int (Suc n) = y + int n + 1" by simp
  ultimately show ?case using Suc by (simp only: order_trans)
qed

lemma daysSinceEpoch_mono: "y \<le> y' \<Longrightarrow> daysSinceEpoch y \<le> daysSinceEpoch y'"
  using daysSinceEpoch_mono_aux [of y "nat (y' - y)"] by simp

lemma month_cases:
  "1 \<le> (m::nat) \<Longrightarrow> m \<le> 12 \<Longrightarrow>
   m = 1 \<or> m = 2 \<or> m = 3 \<or> m = 4 \<or> m = 5 \<or> m = 6 \<or> m = 7 \<or> m = 8 \<or> m = 9 \<or> m = 10 \<or> m = 11 \<or> m = 12"
  by arith

lemma day_of_year_bounds:
  assumes "valid_Time t"
  shows "0 \<le> day_of_year t" and "day_of_year t < (if isLeap (tm_year t) then 366 else 365)"
proof -
  from assms have m: "1 \<le> tm_month t" "tm_month t \<le> 12"
    and d: "1 \<le> tm_day t" "tm_day t \<le> daysIn (tm_month t) (tm_year t)"
    by (simp_all add: valid_Time_def)
  from d show "0 \<le> day_of_year t" by (simp add: day_of_year_def)
  from month_cases [OF m] d show "day_of_year t < (if isLeap (tm_year t) then 366 else 365)"
    by (elim disjE) (auto simp: day_of_year_def daysBefore_def daysIn_def split: if_splits)
qed

lemma abs_seconds_bounds:
  assumes "valid_Time t"
  shows "(daysSinceEpoch (tm_year t) + day_of_year t) * 86400 \<le> abs_seconds t + tm_offset t"
    and "abs_seconds t + tm_offset t < (daysSinceEpoch (tm_year t) + day_of_year t + 1) * 86400"
  using assms by (simp_all add: abs_seconds_def day_of_year_def valid_Time_def)

lemma same_offset_year_order:
  assumes "valid_Time s" "valid_Time e" "tm_offset s = tm_offset e" "\<not> After s e"
  shows "Year s \<le> Year e"
proof (rule ccontr)
  assume "\<not> Year s \<le> Year e"
  then have "tm_year e + 1 \<le> tm_year s" by (simp add: Year_def)
  then have "daysSinceEpoch (tm_year e + 1) \<le> daysSinceEpoch (tm_year s)"
    by (rule daysSinceEpoch_mono)
  with day_of_year_bounds(2) [OF assms(2)]
  have "daysSinceEpoch (tm_year e) + day_of_year e + 1 \<le> daysSinceEpoch (tm_year s)"
    by (simp add: daysSinceEpoch_Suc split: if_splits)
  with day_of_year_bounds(1) [OF assms(1)]
  have "(daysSinceEpoch (tm_year e) + day_of_year e + 1) * 86400
        \<le> (daysSinceEpoch (tm_year s) + day_of_year s) * 86400"
    by simp
  with abs_seconds_bounds(2) [OF assms(2)] abs_seconds_bounds(1) [OF assms(1)] assms(3)
  have "abs_seconds e < abs_seconds s" by simp
  with assms(4) show False by (simp add: After_def)
qed


section \<open>The range chunker: properties\<close>

lemma year_step_q_deref [simp]: "q_deref (year_step add_year sent c) = q_deref c"
  by (simp add: year_step_def send_url_def Let_def)

lemma year_step_after_turns:
  assumes "after_turns add_year sent q i c" "\<not> returned c"
  shows "after_turns add_year sent q (Suc i) (year_step add_year sent c)"
proof (cases "sent i")
  case True
  with assms show ?thesis
    by (auto simp: after_turns_def year_step_def send_url_def Let_def year_chunk_def less_Suc_eq)
next
  case False
  with assms show ?thesis
    by (auto simp: after_turns_def year_step_def send_url_def Let_def)
qed

lemma year_loop_after_turns:
  assumes "after_turns add_year sent q i c" "int i \<le> Year (End q) - Year (Start q)"
  shows "after_turns add_year sent q (nat (Year (End q) - Year (Start q))) (year_loop add_year sent i c)
         \<or> (returned (year_loop add_year sent i c) \<and> (\<exists>k. after_turns add_year sent q k (year_loop add_year sent i c)
               \<and> k \<le> nat (Year (End q) - Year (Start q))))"
  using assms
proof (induction add_year sent i c rule: year_loop.induct)
  case (1 add_year sent i c)
  from "1.prems" have qd: "q_deref c = q" by (simp add: after_turns_def)
  show ?case
  proof (cases "returned c")
    case True
    then have "year_loop add_year sent i c = c" by (subst year_loop.simps) simp
    with True "1.prems" show ?thesis by auto
  next
    case False
    show ?thesis
    proof (cases "int i < Year (End q) - Year (Start q)")
      case lt: True
      with False qd have step: "year_loop add_year sent i c = year_loop add_year sent (Suc i) (year_step add_year sent c)"
        by (subst year_loop.simps) simp
      have "after_turns add_year sent q (Suc i) (year_step add_year sent c)"
        using "1.prems"(1) False by (rule year_step_after_turns)
      moreover from lt have "int (Suc i) \<le> Year (End q) - Year (Start q)" by simp
      ultimately show ?thesis
        using "1.IH" [OF _ ] False lt qd step by simp
    next
      case ge: False
      with qd have "year_loop add_year sent i c = c" by (subst year_loop.simps) simp
      moreover from ge "1.prems"(2) have "nat (Year (End q) - Year (Start q)) = i" by simp
      ultimately show ?thesis using "1.prems"(1) by simp
    qed
  qed
qed


lemma take_year_chunks:
  "k \<le> nat (Year (End q) - Year (Start q)) \<Longrightarrow> take k (year_chunks add_year q) = map (year_chunk add_year q) [0..<k]"
  by (simp add: year_chunks_def Let_def take_map min_def)

lemma writeUrls_run_cases:
  fixes q sent add_year
  defines "n \<equiv> nat (Year (End q) - Year (Start q))"
  defines "c \<equiv> writeUrls_run add_year sent q"
  shows "q_deref c = q \<and>
     (if returned c
      then \<exists>k\<le>n. \<not> sent k \<and> (\<forall>j<k. sent j) \<and> sends c = take k (year_chunks add_year q)
      else (\<forall>j\<le>n. sent j) \<and> sends c = year_chunks add_year q
           \<and> a_local c = q\<lparr>Start := (add_year ^^ n) (Start q), End := End q\<rparr>)"
proof (cases "Year (End q) - Year (Start q) > 0")
  case False
  then have n: "n = 0" by (simp add: n_def)
  from False have "c = send_url sent \<lparr>q_deref = q, a_local = q, sends = [], returned = False\<rparr>"
    by (simp add: c_def writeUrls_run_def Let_def)
  with n False show ?thesis
    by (simp add: send_url_def year_chunks_def Let_def)
next
  case True
  let ?c1 = "year_loop add_year sent 0 \<lparr>q_deref = q, a_local = q\<lparr>End := Start q\<rparr>, sends = [], returned = False\<rparr>"
  from True have c: "c = (if returned ?c1 then ?c1
                else send_url sent (?c1\<lparr>a_local := (a_local ?c1)\<lparr>End := End (q_deref ?c1)\<rparr>\<rparr>))"
    by (simp add: c_def writeUrls_run_def Let_def)
  have "after_turns add_year sent q 0 \<lparr>q_deref = q, a_local = q\<lparr>End := Start q\<rparr>, sends = [], returned = False\<rparr>"
    by (simp add: after_turns_def)
  from year_loop_after_turns [OF this] True
  have "\<exists>k\<le>n. after_turns add_year sent q k ?c1 \<and> (\<not> returned ?c1 \<longrightarrow> k = n)"
    by (auto simp: n_def)
  then obtain k where k: "k \<le> n" "after_turns add_year sent q k ?c1" "\<not> returned ?c1 \<Longrightarrow> k = n"
    by blast
  show ?thesis
  proof (cases "returned ?c1")
    case True
    with k(2) obtain k' where k': "k' < k" "\<not> sent k'" "\<forall>j<k'. sent j"
      "sends ?c1 = map (year_chunk add_year q) [0..<k']"
      by (auto simp: after_turns_def)
    with k(1) have "sends ?c1 = take k' (year_chunks add_year q)"
      by (simp add: take_year_chunks n_def)
    moreover from k(2) have "q_deref ?c1 = q" by (simp add: after_turns_def)
    ultimately show ?thesis using True k' k(1) c
      by (auto intro!: exI [of _ k'])
  next
    case False
    with k have a: "after_turns add_year sent q n ?c1" by simp
    with False have s: "\<forall>j<n. sent j" "sends ?c1 = map (year_chunk add_year q) [0..<n]"
      "a_local ?c1 = q\<lparr>Start := (add_year ^^ n) (Start q), End := (add_year ^^ n) (Start q)\<rparr>"
      "q_deref ?c1 = q"
      by (simp_all add: after_turns_def)
    show ?thesis
    proof (cases "sent n")
      case True
      with s(1) have "\<forall>j\<le>n. sent j" by (simp add: le_less)
      with True False s c show ?thesis
        by (simp add: send_url_def year_chunks_def Let_def n_def)
    next
      case no: False
      have "take n (year_chunks add_year q) = map (year_chunk add_year q) [0..<n]"
        by (simp add: take_year_chunks n_def)
      with no False s c show ?thesis
        by (auto simp: send_url_def intro!: exI [of _ n])
    qed
  qed
qed

lemma writeUrls_run_uncancelled:
  "\<forall>k \<le> nat (Year (End q) - Year (Start q)). sent k \<Longrightarrow>
   writeUrls_run add_year sent q
     = \<lparr>q_deref = q,
        a_local = q\<lparr>Start := (add_year ^^ nat (Year (End q) - Year (Start q))) (Start q),
                    End := End q\<rparr>,
        sends = year_chunks add_year q, returned = False\<rparr>"
  using writeUrls_run_cases [of add_year sent q] by (auto split: if_splits)

lemma writeUrls_run_prefix:
  "q_deref (writeUrls_run add_year sent q) = q
   \<and> (\<exists>k. sends (writeUrls_run add_year sent q) = take k (year_chunks add_year q))"
  using writeUrls_run_cases [of add_year sent q] by (auto split: if_splits intro: exI [of _ "length (year_chunks add_year q)"])

lemma year_chunks_length: "length (year_chunks add_year q) = nat (Year (End q) - Year (Start q)) + 1"
  by (simp add: year_chunks_def Let_def)

lemma year_chunks_adjoin:
  "Suc i < length (year_chunks add_year q) \<Longrightarrow> End (year_chunks add_year q ! i) = Start (year_chunks add_year q ! Suc i)"
proof -
  assume "Suc i < length (year_chunks add_year q)"
  then have i: "i < nat (Year (End q) - Year (Start q))"
    by (simp add: year_chunks_def Let_def)
  show ?thesis
  proof (cases "Suc i < nat (Year (End q) - Year (Start q))")
    case True
    with i show ?thesis by (simp add: year_chunks_def year_chunk_def Let_def nth_append)
  next
    case False
    with i have "nat (Year (End q) - Year (Start q)) = Suc i" by simp
    then show ?thesis by (simp add: year_chunks_def year_chunk_def Let_def nth_append del: upt_Suc)
  qed
qed

lemma year_chunks_frame:
  "a \<in> set (year_chunks add_year q) \<Longrightarrow> a = q\<lparr>Start := Start a, End := End a\<rparr>"
  by (auto simp: year_chunks_def year_chunk_def Let_def)

lemma year_chunks_single:
  "Year (End q) - Year (Start q) \<le> 0 \<Longrightarrow> year_chunks add_year q = [q]"
  by (simp add: year_chunks_def Let_def)

text \<open>
  C4, as amended. With \<open>Y\<close> the year of the end minus the year of the start, each read
  in the location of its own time, and \<open>n\<close> the larger of \<open>Y\<close> and 0, the chunker, when
  none of its sends is cancelled, sends the \<open>n + 1\<close> sub-queries of \<open>year_chunks\<close>: for
  each \<open>i\<close> below \<open>n\<close> the query from the start plus \<open>i\<close> years to the start plus
  \<open>i + 1\<close> years, and last the query from the start plus \<open>n\<close> years to the end. The end
  of each chunk is the start of the next. When \<open>Y\<close> is 0 or negative the one query sent
  is the original. When the start and the end stand at the same offset from UTC and the
  start is not after the end, \<open>Y\<close> is not negative and the number of sub-queries is
  \<open>Y + 1\<close>. A year is added by \<open>AddDate(1, 0, 0)\<close>, one at a time, whatever the rules
  of the location of the start are.
\<close>

theorem writeUrls_year_chunks:
  "((\<forall>k \<le> nat (Year (End q) - Year (Start q)). sent k) \<longrightarrow>
      sends (writeUrls_run add_year sent q) = year_chunks add_year q
      \<and> writeUrls fmt_v add_year sent q = map (url fmt_v) (year_chunks add_year q)
      \<and> length (writeUrls fmt_v add_year sent q) = nat (Year (End q) - Year (Start q)) + 1)
   \<and> (\<forall>i. Suc i < length (year_chunks add_year q)
          \<longrightarrow> End (year_chunks add_year q ! i) = Start (year_chunks add_year q ! Suc i))
   \<and> (Year (End q) - Year (Start q) \<le> 0 \<longrightarrow> year_chunks add_year q = [q])
   \<and> ((\<forall>k \<le> nat (Year (End q) - Year (Start q)). sent k)
        \<and> valid_Time (Start q) \<and> valid_Time (End q) \<and> tm_offset (Start q) = tm_offset (End q)
        \<and> \<not> After (Start q) (End q)
          \<longrightarrow> int (length (writeUrls fmt_v add_year sent q)) = Year (End q) - Year (Start q) + 1)"
proof -
  have s: "sends (writeUrls_run add_year sent q) = year_chunks add_year q"
    if "\<forall>k \<le> nat (Year (End q) - Year (Start q)). sent k"
    using that by (simp add: writeUrls_run_uncancelled)
  have "int (length (year_chunks add_year q)) = Year (End q) - Year (Start q) + 1"
    if "valid_Time (Start q)" "valid_Time (End q)" "tm_offset (Start q) = tm_offset (End q)"
       "\<not> After (Start q) (End q)"
    using same_offset_year_order [OF that] by (simp add: year_chunks_length)
  with s show ?thesis
    by (simp add: writeUrls_def year_chunks_length year_chunks_adjoin year_chunks_single)
qed

lemma year_chunks_span2012_2014:
  "year_chunks AddDate_fixed span2012_2014 =
     [span2012_2014\<lparr>Start := t030625\<lparr>tm_year := 2012\<rparr>, End := t030625\<lparr>tm_year := 2013\<rparr>\<rparr>,
      span2012_2014\<lparr>Start := t030625\<lparr>tm_year := 2013\<rparr>, End := t030625\<rparr>,
      span2012_2014\<lparr>Start := t030625, End := t040625\<rparr>]"
  by (simp add: year_chunks_def year_chunk_def span2012_2014_def Year_def t030625_def t040625_def
      Let_def numeral_2_eq_2 AddDate_fixed_def upt_rec)

theorem writeUrls_year_chunks_witness:
  "sends (writeUrls_run AddDate_fixed (\<lambda>k. True) span2012_2014) =
     [span2012_2014\<lparr>Start := t030625\<lparr>tm_year := 2012\<rparr>, End := t030625\<lparr>tm_year := 2013\<rparr>\<rparr>,
      span2012_2014\<lparr>Start := t030625\<lparr>tm_year := 2013\<rparr>, End := t030625\<rparr>,
      span2012_2014\<lparr>Start := t030625, End := t040625\<rparr>]
   \<and> length (writeUrls (\<lambda>x. []) AddDate_fixed (\<lambda>k. True) span2012_2014) = 3
   \<and> End (year_chunks AddDate_fixed span2012_2014 ! 0) = Start (year_chunks AddDate_fixed span2012_2014 ! 1)
   \<and> End (year_chunks AddDate_fixed span2012_2014 ! 1) = Start (year_chunks AddDate_fixed span2012_2014 ! 2)
   \<and> year_chunks AddDate_fixed (span2012_2014\<lparr>Start := t030625\<rparr>) = [span2012_2014\<lparr>Start := t030625\<rparr>]
   \<and> \<not> After (Start span2012_2014) (End span2012_2014)"
  using writeUrls_year_chunks [where q = span2012_2014 and fmt_v = "\<lambda>x. []" and sent = "\<lambda>k. True" and add_year = AddDate_fixed]
    writeUrls_year_chunks [where q = "span2012_2014\<lparr>Start := t030625\<rparr>" and fmt_v = "\<lambda>x. []"
      and sent = "\<lambda>k. True" and add_year = AddDate_fixed]
  by (simp add: year_chunks_span2012_2014)
     (simp add: span2012_2014_def Year_def t030625_def t040625_def After_def abs_seconds_def
        daysSinceEpoch_def isLeap_def daysBefore_def)

text \<open>
  C4 as it was stated fails when the start and the end are given at different offsets:
  the start 2014-01-01T00:30:00+01:00 is not after the end 2013-12-31T23:45:00Z, the
  difference of the years is -1, and one query is sent, not none.
\<close>

theorem year_chunks_counterexample:
  "valid_Time (Start across_zones) \<and> valid_Time (End across_zones)
   \<and> \<not> After (Start across_zones) (End across_zones)
   \<and> Year (End across_zones) - Year (Start across_zones) + 1 = 0
   \<and> length (writeUrls (\<lambda>x. []) AddDate_fixed (\<lambda>k. True) across_zones) = 1"
  by (simp add: writeUrls_def writeUrls_run_uncancelled year_chunks_def across_zones_def Year_def
      valid_Time_def daysIn_def After_def abs_seconds_def daysSinceEpoch_def isLeap_def
      daysBefore_def)

text \<open>
  C9. In every run, cancelled or not, every sub-query sent by the chunker has the
  \<open>EventID\<close>, the \<open>MinUsedPhaseCount\<close>, the \<open>MinMagnitude\<close> and the \<open>Bbox\<close> of the query
  given: it is that query with another start and end. The query behind the receiver is
  the same after the run as before.
\<close>

theorem writeUrls_frame:
  "q_deref (writeUrls_run add_year sent q) = q
   \<and> (\<forall>a \<in> set (sends (writeUrls_run add_year sent q)).
         EventID a = EventID q \<and> MinUsedPhaseCount a = MinUsedPhaseCount q
         \<and> MinMagnitude a = MinMagnitude q \<and> Bbox a = Bbox q
         \<and> a = q\<lparr>Start := Start a, End := End a\<rparr>)"
proof -
  have "EventID a = EventID q \<and> MinUsedPhaseCount a = MinUsedPhaseCount q
         \<and> MinMagnitude a = MinMagnitude q \<and> Bbox a = Bbox q
         \<and> a = q\<lparr>Start := Start a, End := End a\<rparr>" if "a \<in> set (year_chunks add_year q)" for a
  proof -
    from that have "a = q\<lparr>Start := Start a, End := End a\<rparr>" by (rule year_chunks_frame)
    then show ?thesis by (metis Query.select_convs Query.surjective Query.update_convs)
  qed
  moreover obtain k where "sends (writeUrls_run add_year sent q) = take k (year_chunks add_year q)"
    using writeUrls_run_prefix [of add_year sent q] by blast
  then have "set (sends (writeUrls_run add_year sent q)) \<subseteq> set (year_chunks add_year q)"
    by (simp add: set_take_subset)
  ultimately show ?thesis
    using writeUrls_run_prefix [of add_year sent q] by blast
qed

theorem writeUrls_frame_witness:
  "q_deref (writeUrls_run AddDate_fixed (\<lambda>k. True) span2012_2014) = span2012_2014
   \<and> map EventID (sends (writeUrls_run AddDate_fixed (\<lambda>k. True) span2012_2014)) = [[], [], []]
   \<and> map MinUsedPhaseCount (sends (writeUrls_run AddDate_fixed (\<lambda>k. True) span2012_2014)) = [60, 60, 60]
   \<and> map MinMagnitude (sends (writeUrls_run AddDate_fixed (\<lambda>k. True) span2012_2014))
       = [unsetMinMagnitude, unsetMinMagnitude, unsetMinMagnitude]
   \<and> map Bbox (sends (writeUrls_run AddDate_fixed (\<lambda>k. True) span2012_2014))
       = [''174,-41,175,-42'', ''174,-41,175,-42'', ''174,-41,175,-42'']
   \<and> sends (writeUrls_run AddDate_fixed (\<lambda>k. k < 1) span2012_2014)
       = [span2012_2014\<lparr>Start := t030625\<lparr>tm_year := 2012\<rparr>, End := t030625\<lparr>tm_year := 2013\<rparr>\<rparr>]"
  using writeUrls_frame [of AddDate_fixed "\<lambda>k. True" span2012_2014]
  by (simp add: writeUrls_run_uncancelled year_chunks_span2012_2014)
     (simp add: span2012_2014_def writeUrls_run_def Let_def Year_def t030625_def t040625_def
        year_loop.simps year_step_def send_url_def AddDate_fixed_def)

section \<open>Linking: properties\<close>

lemma foldl_append_concat: "foldl (\<lambda>m x. m @ f x) acc xs = acc @ concat (map f xs)"
  by (induction xs arbitrary: acc) simp_all

lemma index_from_None:
  "index_from key i xs m id' = None \<longleftrightarrow> m id' = None \<and> id' \<notin> key ` set xs"
  by (induction xs arbitrary: i m) auto

lemma index_from_Some:
  "index_from key i xs m id' = Some k \<Longrightarrow>
   m id' = Some k \<or> (i \<le> k \<and> k < i + length xs \<and> key (xs ! (k - i)) = id')"
proof (induction xs arbitrary: i m)
  case Nil
  then show ?case by simp
next
  case (Cons x xs)
  from Cons.prems have "index_from key (Suc i) xs (m(key x \<mapsto> i)) id' = Some k" by simp
  from Cons.IH [OF this] show ?case
  proof
    assume "(m(key x \<mapsto> i)) id' = Some k"
    then show ?thesis by (auto split: if_splits)
  next
    assume a: "Suc i \<le> k \<and> k < Suc i + length xs \<and> key (xs ! (k - Suc i)) = id'"
    then have "k - i = Suc (k - Suc i)" by arith
    with a show ?thesis by simp
  qed
qed

lemma index_from_empty_Some:
  "index_from key 0 xs Map.empty id' = Some k \<Longrightarrow> k < length xs \<and> key (xs ! k) = id'"
  using index_from_Some [of key 0 xs Map.empty id' k] by simp

lemma index_from_empty_iff:
  "(\<exists>k. index_from key 0 xs Map.empty id' = Some k) \<longleftrightarrow> id' \<in> key ` set xs"
  using index_from_None [of key 0 xs Map.empty id'] by auto

text \<open>
  C6. Linking returns an error exactly when one of the four conditions holds, and the
  error is that of the first condition in the order: empty preferred origin identifier,
  empty preferred magnitude identifier, no origins, no magnitudes. In the dialect of
  seiscompml07 the magnitudes counted are those of all origins, put together.
\<close>

theorem init_incomplete_document:
  "((\<exists>q'. init q = Returns (q', Some e)) \<longleftrightarrow>
      incomplete_document (PreferredOriginID (Event (EventParameters q)))
        (PreferredMagnitudeID (Event (EventParameters q)))
        (length (ev_O (Event (EventParameters q)))) (length (ev_M (Event (EventParameters q))))
      = Some e)
   \<and> ((\<exists>s'. sc_init s = Returns (s', Some e)) \<longleftrightarrow>
      incomplete_document (PreferredOriginID (sc_Event (sc_EventParameters s)))
        (PreferredMagnitudeID (sc_Event (sc_EventParameters s)))
        (length (ep_O (sc_EventParameters s)))
        (length (concat (map sc_M (ep_O (sc_EventParameters s)))))
      = Some e)"
  by (auto simp: init_def sc_init_def incomplete_document_def Let_def foldl_append_concat
      split: option.splits)

lemma init_complete:
  assumes "incomplete_document (PreferredOriginID (Event (EventParameters q)))
     (PreferredMagnitudeID (Event (EventParameters q)))
     (length (ev_O (Event (EventParameters q)))) (length (ev_M (Event (EventParameters q)))) = None"
  shows "(init q = Panics \<longleftrightarrow>
     PreferredOriginID (Event (EventParameters q)) \<notin> PublicID ` set (ev_O (Event (EventParameters q))))
    \<and> (init q \<noteq> Panics \<longleftrightarrow> (\<exists>q'. init q = Returns (q', None)))"
proof -
  let ?e = "Event (EventParameters q)"
  from assms have c: "PreferredOriginID ?e \<noteq> []" "PreferredMagnitudeID ?e \<noteq> []"
    "ev_O ?e \<noteq> []" "ev_M ?e \<noteq> []"
    by (auto simp: incomplete_document_def split: if_splits)
  show ?thesis
  proof (cases "index_from PublicID 0 (ev_O ?e) Map.empty (PreferredOriginID ?e)")
    case None
    then have "PreferredOriginID ?e \<notin> PublicID ` set (ev_O ?e)"
      by (simp add: index_from_None)
    moreover from None c have "init q = Panics"
      by (simp add: init_def Let_def)
    ultimately show ?thesis by simp
  next
    case (Some k)
    then have "PreferredOriginID ?e \<in> PublicID ` set (ev_O ?e)"
      using index_from_empty_iff [of PublicID "ev_O ?e" "PreferredOriginID ?e"] by blast
    moreover from Some c have "\<exists>q'. init q = Returns (q', None)"
      by (simp add: init_def Let_def)
    ultimately show ?thesis by auto
  qed
qed

lemma sc_init_complete:
  assumes "incomplete_document (PreferredOriginID (sc_Event (sc_EventParameters s)))
        (PreferredMagnitudeID (sc_Event (sc_EventParameters s)))
        (length (ep_O (sc_EventParameters s)))
        (length (concat (map sc_M (ep_O (sc_EventParameters s))))) = None"
  shows "(sc_init s = Panics \<longleftrightarrow>
     PreferredOriginID (sc_Event (sc_EventParameters s)) \<notin> PublicID ` set (ep_O (sc_EventParameters s)))
    \<and> (sc_init s \<noteq> Panics \<longleftrightarrow> (\<exists>s'. sc_init s = Returns (s', None)))"
proof -
  let ?p = "sc_EventParameters s"
  let ?e = "sc_Event ?p"
  from assms have c: "PreferredOriginID ?e \<noteq> []" "PreferredMagnitudeID ?e \<noteq> []"
    "ep_O ?p \<noteq> []" "concat (map sc_M (ep_O ?p)) \<noteq> []"
    by (auto simp: incomplete_document_def split: if_splits)
  show ?thesis
  proof (cases "index_from PublicID 0 (ep_O ?p) Map.empty (PreferredOriginID ?e)")
    case None
    then have "PreferredOriginID ?e \<notin> PublicID ` set (ep_O ?p)"
      by (simp add: index_from_None)
    moreover from None c have "sc_init s = Panics"
      by (simp add: sc_init_def Let_def foldl_append_concat)
    ultimately show ?thesis by simp
  next
    case (Some k)
    then have "PreferredOriginID ?e \<in> PublicID ` set (ep_O ?p)"
      using index_from_empty_iff [of PublicID "ep_O ?p" "PreferredOriginID ?e"] by blast
    moreover from Some c have "\<exists>s'. sc_init s = Returns (s', None)"
      by (simp add: sc_init_def Let_def foldl_append_concat)
    ultimately show ?thesis by auto
  qed
qed

lemma init_resolved:
  assumes "incomplete_document (PreferredOriginID (Event (EventParameters q)))
     (PreferredMagnitudeID (Event (EventParameters q)))
     (length (ev_O (Event (EventParameters q)))) (length (ev_M (Event (EventParameters q)))) = None"
    and "index_from PublicID 0 (ev_O (Event (EventParameters q))) Map.empty
           (PreferredOriginID (Event (EventParameters q))) = Some k"
  shows "\<exists>q'. init q = Returns (q', None)
     \<and> PreferredOrigin (Event (EventParameters q')) = Some k
     \<and> (PreferredMagnitude (Event (EventParameters q')) = None \<longleftrightarrow>
          PreferredMagnitudeID (Event (EventParameters q))
            \<notin> mg_PublicID ` set (ev_M (Event (EventParameters q))))
     \<and> map Pick (Arrivals (ev_O (Event (EventParameters q')) ! k))
         = map (\<lambda>a. index_from pk_PublicID 0 (ev_P (Event (EventParameters q))) Map.empty (PickID a))
             (Arrivals (ev_O (Event (EventParameters q)) ! k))"
proof -
  let ?e = "Event (EventParameters q)"
  from assms(1) have c: "PreferredOriginID ?e \<noteq> []" "PreferredMagnitudeID ?e \<noteq> []"
    "ev_O ?e \<noteq> []" "ev_M ?e \<noteq> []"
    by (auto simp: incomplete_document_def split: if_splits)
  from assms(2) have k: "k < length (ev_O ?e)"
    by (auto dest: index_from_empty_Some)
  from c k assms(2) show ?thesis
    by (simp add: init_def Let_def index_from_None link_arrivals_def comp_def)
qed

text \<open>
  C1, at a document that passes the four checks and whose preferred origin identifier
  \<open>o9\<close> is not the identifier of an origin: linking panics in both dialects. The claim
  holds for the other two references: with the preferred magnitude \<open>m9\<close> that is not in
  the document and no pick for the arrival, linking returns no error and leaves the
  preferred magnitude and the pick of the arrival \<open>nil\<close>.
\<close>

theorem init_unresolved_preferred_origin:
  "incomplete_document ''o9'' ''m1'' (length [origin1]) (length [magnitude1]) = None
   \<and> init (document ''o9'' ''m1'' [pick1]) = Panics
   \<and> sc_init (sc_document ''o9'' ''m1'' [pick1]) = Panics
   \<and> (\<exists>q'. init (document ''o1'' ''m9'' []) = Returns (q', None)
         \<and> PreferredMagnitude (Event (EventParameters q')) = None
         \<and> PreferredOrigin (Event (EventParameters q')) = Some 0
         \<and> map Pick (Arrivals (ev_O (Event (EventParameters q')) ! 0)) = [None])
   \<and> (\<exists>s'. sc_init (sc_document ''o1'' ''m9'' []) = Returns (s', None)
         \<and> PreferredMagnitude (sc_Event (sc_EventParameters s')) = None
         \<and> PreferredOrigin (sc_Event (sc_EventParameters s')) = Some 0
         \<and> map Pick (Arrivals (ev_O (sc_Event (sc_EventParameters s')) ! 0)) = [None])"
  by (simp add: init_def sc_init_def document_def sc_document_def zeroEvent_def Let_def origin1_def
      link_arrivals_def arrival1_def magnitude1_def incomplete_document_def Origin.extend_def
      sc_Origin.fields_def)

section \<open>Arrival rows: properties\<close>

lemma arrival_rows_Returns:
  "\<forall>a \<in> set as. \<exists>k. Pick a = Some k \<and> k < length picks \<Longrightarrow>
   arrival_rows f picks t as = Returns (map (\<lambda>a. arrival_row f t (picks ! the (Pick a)) a) as)"
  by (induction as) (auto simp: deref_def)

lemma arrival_rows_Panics:
  "\<exists>a \<in> set as. Pick a = None \<Longrightarrow> arrival_rows f picks t as = Panics"
proof (induction as)
  case Nil
  then show ?case by simp
next
  case (Cons a as)
  show ?case
  proof (cases "deref picks (Pick a)")
    case Panics
    then show ?thesis by simp
  next
    case (Returns p)
    then have "Pick a \<noteq> None" by (auto simp: deref_def split: option.splits)
    with Cons.prems have "\<exists>a \<in> set as. Pick a = None" by auto
    then have "arrival_rows f picks t as = Panics" by (rule Cons.IH)
    with Returns show ?thesis by simp
  qed
qed

text \<open>
  C10. \<open>ArrivalMap\<close> reads the pick of every arrival through its pointer. When every
  arrival of the origin points at a pick, the value is one row per arrival in the order
  of the arrivals; when some arrival has no pick (\<open>nil\<close>), the run panics. This holds
  for the origins of both dialects. Linking leaves the pick of an arrival \<open>nil\<close> when its
  identifier is not that of a pick, so the rows of such a linked origin panic.
\<close>

theorem ArrivalMap_rows:
  "((\<forall>a \<in> set (Arrivals o'). \<exists>k. Pick a = Some k \<and> k < length picks) \<longrightarrow>
      ArrivalMap f picks o'
        = Returns (map (\<lambda>a. arrival_row f (tv_Value (Time o')) (picks ! the (Pick a)) a)
                     (Arrivals o')))
   \<and> ((\<exists>a \<in> set (Arrivals o'). Pick a = None) \<longrightarrow> ArrivalMap f picks o' = Panics)"
  by (simp add: ArrivalMap_def arrival_rows_Returns arrival_rows_Panics)

theorem ArrivalMap_rows_witness:
  "ArrivalMap example_formatting [pick1] (origin1\<lparr>Arrivals := [arrival1\<lparr>Pick := Some 0\<rparr>]\<rparr>)
     = Returns [[(''NetworkCode'', ''NZ''), (''StationCode'', ''WVZ''), (''ChannelCode'', ''HHZ''),
                 (''LocationCode'', ''10''), (''Phase'', ''P''),
                 (''PhaseTime'', ''2014-01-27T04:06:25Z''), (''PhaseOriginOffset'', ''f''),
                 (''TimeResidual'', ''f''), (''TimeWeight'', ''f'')]]
   \<and> ArrivalMap example_formatting [] origin1 = Panics"
  using ArrivalMap_rows [where o' = "origin1\<lparr>Arrivals := [arrival1\<lparr>Pick := Some 0\<rparr>]\<rparr>"
      and picks = "[pick1]" and f = example_formatting]
    ArrivalMap_rows [where o' = origin1 and picks = "[]" and f = example_formatting]
  by (simp add: origin1_def arrival1_def arrival_row_def pick1_def example_formatting_def
      Format_t040625)

lemma ArrivalMap_after_init:
  "\<exists>q'. init (document ''o1'' ''m1'' []) = Returns (q', None)
     \<and> ArrivalMap f (ev_P (Event (EventParameters q'))) (ev_O (Event (EventParameters q')) ! 0)
         = Panics"
  by (simp add: init_def document_def zeroEvent_def Let_def origin1_def link_arrivals_def
      arrival1_def magnitude1_def ArrivalMap_def deref_def)


section \<open>The strict aggregator: properties\<close>

lemma search_loop_first_error:
  "list_all (\<lambda>r. wfs_err r = None) rs1 \<Longrightarrow> wfs_err r = Some e \<Longrightarrow>
   search_loop (rs1 @ r # rs2) res = (None, Some e)"
  by (induction rs1 arbitrary: res) simp_all

lemma search_loop_exclusive:
  "fst (search_loop rs res) = None \<longleftrightarrow> snd (search_loop rs res) \<noteq> None"
  by (induction rs arbitrary: res) (simp_all split: option.splits)

lemma search_loop_no_error:
  "list_all (\<lambda>r. wfs_err r = None) rs \<Longrightarrow> \<exists>m. search_loop rs res = (Some m, None)"
  by (induction rs arbitrary: res) simp_all

text \<open>
  C2. When the results arrive in the order of \<open>us1 @ u # us2\<close> and the result of \<open>u\<close> is
  the first that carries an error, \<open>search\<close> returns \<open>nil\<close> and that error, whatever the
  results after it are and whatever was merged before it, and \<open>Get\<close> returns \<open>nil\<close> and
  the same error. In every run \<open>search\<close> and \<open>Get\<close> return either a collection and no
  error, or an error and no collection.
\<close>

theorem search_first_error:
  "(list_all (\<lambda>u'. wfs_err (wfs_fetch c j u') = None) us1 \<and> wfs_err (wfs_fetch c j u) = Some e
      \<longrightarrow> search c j (us1 @ u # us2) = (None, Some e)
          \<and> wfs_Get f c j (us1 @ u # us2) = (None, Some e))
   \<and> (fst (search c j arrival) = None \<longleftrightarrow> snd (search c j arrival) \<noteq> None)
   \<and> (fst (wfs_Get f c j arrival) = None \<longleftrightarrow> snd (wfs_Get f c j arrival) \<noteq> None)"
proof -
  have "search c j (us1 @ u # us2) = (None, Some e)"
    if "list_all (\<lambda>u'. wfs_err (wfs_fetch c j u') = None) us1" "wfs_err (wfs_fetch c j u) = Some e"
    using that search_loop_first_error [of "map (wfs_fetch c j) us1" "wfs_fetch c j u" e
        "map (wfs_fetch c j) us2" "[]"]
    by (simp add: search_def list_all_iff)
  moreover have "fst (wfs_Get f c j arrival) = None \<longleftrightarrow> snd (wfs_Get f c j arrival) \<noteq> None"
    by (simp add: wfs_Get_def split: prod.splits option.splits)
  ultimately show ?thesis
    by (simp add: wfs_Get_def search_def search_loop_exclusive)
qed

lemma wfs_fetch_good: "wfs_fetch example_client example_json ''good'' = \<lparr>features = [feature1], wfs_err = None\<rparr>"
  by (simp add: wfs_fetch_def example_client_def example_json_def)

lemma wfs_fetch_missing:
  "wfs_fetch example_client example_json ''missing''
     = \<lparr>features = [], wfs_err = Some ''Non 200 response code: 404''\<rparr>"
  by (simp add: wfs_fetch_def example_client_def non200_def Itoa_def appendInt_def digits.simps Let_def)

lemma wfs_fetch_down:
  "wfs_fetch example_client example_json ''down'' = \<lparr>features = [], wfs_err = Some (refused ''down'')\<rparr>"
  by (simp add: wfs_fetch_def example_client_def)

theorem search_first_error_witness:
  "search example_client example_json [''good'', ''missing'', ''down'']
     = (None, Some ''Non 200 response code: 404'')
   \<and> wfs_Get example_formatting example_client example_json [''good'', ''missing'', ''down'']
     = (None, Some ''Non 200 response code: 404'')
   \<and> search example_client example_json [''good''] = (Some [(''2014p549333'', feature1)], None)"
  using search_first_error [where c = example_client and j = example_json and ?us1.0 = "[''good'']"
      and u = "''missing''" and ?us2.0 = "[''down'']" and e = "''Non 200 response code: 404''"
      and f = example_formatting and arrival = "[''good'']"]
  by (simp add: wfs_fetch_good wfs_fetch_missing)
     (simp add: search_def wfs_fetch_good feature1_def)

section \<open>The workers: properties\<close>

lemma worker_total_exits:
  "\<forall>t. body t \<noteq> Panics \<Longrightarrow> snd (worker body targets) = Exited"
proof (induction targets)
  case Nil
  then show ?case by simp
next
  case (Cons p targets)
  obtain t sent where p: "p = (t, sent)" by (cases p)
  from Cons.prems obtain r where r: "body t = Returns r" by (cases "body t") auto
  from Cons show ?case by (auto simp: p r split: prod.splits)
qed

lemma wfs_fetch_failure:
  "(c u = TransportError e \<longrightarrow> wfs_fetch c j u = \<lparr>features = [], wfs_err = Some e\<rparr>)
   \<and> (c u = Replied r \<and> StatusCode r \<noteq> 200 \<longrightarrow>
        wfs_fetch c j u = \<lparr>features = [],
          wfs_err = Some (case snd (Body r) of None \<Rightarrow> non200 (StatusCode r) | Some e' \<Rightarrow> e')\<rparr>)"
  by (auto simp: wfs_fetch_def split: prod.splits option.splits)

lemma fetch_non200:
  "c (quakeMLUrl @ publicid) = Replied r \<Longrightarrow> StatusCode r \<noteq> 200 \<Longrightarrow>
   fetch c x publicid = Returns \<lparr>event = zeroEvent, publicID = publicid,
     err = Some (case snd (Body r) of None \<Rightarrow> non200 (StatusCode r) | Some e' \<Rightarrow> e')\<rparr>"
  by (auto simp: fetch_def split: prod.splits option.splits)

lemma sc_fetch_non200:
  "c (seiscompURL @ publicid @ ''.xml'') = Replied r \<Longrightarrow> StatusCode r \<noteq> 200 \<Longrightarrow>
   sc_fetch c x publicid = Returns \<lparr>event = zeroEvent, publicID = publicid,
     err = Some (case snd (Body r) of None \<Rightarrow> non200 (StatusCode r) | Some e' \<Rightarrow> e')\<rparr>"
  by (auto simp: sc_fetch_def split: prod.splits option.splits)

text \<open>
  C7, as amended. A worker of package wfs turns a transport failure into the result that
  carries the error of the transport, and a status other than 200 into the result that
  carries the error of the status (or of the read of the body, when that failed); the
  result has no field for the request. A worker of quakeml12 or of seiscompml07 whose
  request was answered with a status other than 200 builds the result that carries that
  error and the public identifier it was asked for. When the \<open>select\<close> sends, the result
  is the next on the channel and the worker goes on with the targets that follow; when
  \<open>done\<close> is closed instead, the worker returns and the result is not sent. A worker of
  package wfs never panics.
\<close>

theorem fetch_failure_surfaced:
  "(c u = TransportError e \<longrightarrow> wfs_fetch c j u = \<lparr>features = [], wfs_err = Some e\<rparr>)
   \<and> (c u = Replied r \<and> StatusCode r \<noteq> 200 \<longrightarrow>
        wfs_fetch c j u = \<lparr>features = [],
          wfs_err = Some (case snd (Body r) of None \<Rightarrow> non200 (StatusCode r) | Some e' \<Rightarrow> e')\<rparr>)
   \<and> wfs_fetcher c j ((u, True) # rest)
        = (wfs_fetch c j u # fst (wfs_fetcher c j rest), snd (wfs_fetcher c j rest))
   \<and> wfs_fetcher c j ((u, False) # rest) = ([], Exited)
   \<and> snd (wfs_fetcher c j targets) = Exited
   \<and> (c (quakeMLUrl @ publicid) = Replied r \<and> StatusCode r \<noteq> 200 \<longrightarrow>
        fetcher c x ((publicid, True) # rest)
          = (\<lparr>event = zeroEvent, publicID = publicid,
               err = Some (case snd (Body r) of None \<Rightarrow> non200 (StatusCode r) | Some e' \<Rightarrow> e')\<rparr>
             # fst (fetcher c x rest), snd (fetcher c x rest))
        \<and> fetcher c x ((publicid, False) # rest) = ([], Exited))
   \<and> (c (seiscompURL @ publicid @ ''.xml'') = Replied r \<and> StatusCode r \<noteq> 200 \<longrightarrow>
        sc_fetcher c x' ((publicid, True) # rest)
          = (\<lparr>event = zeroEvent, publicID = publicid,
               err = Some (case snd (Body r) of None \<Rightarrow> non200 (StatusCode r) | Some e' \<Rightarrow> e')\<rparr>
             # fst (sc_fetcher c x' rest), snd (sc_fetcher c x' rest))
        \<and> sc_fetcher c x' ((publicid, False) # rest) = ([], Exited))"
proof -
  have "snd (wfs_fetcher c j targets) = Exited"
    unfolding wfs_fetcher_def by (rule worker_total_exits) simp
  then show ?thesis
    using wfs_fetch_failure [of c u e j r]
    by (auto simp: wfs_fetcher_def fetcher_def sc_fetcher_def fetch_non200 sc_fetch_non200
        split: prod.splits)
qed

theorem fetch_failure_surfaced_witness:
  "wfs_fetcher example_client example_json [(''down'', True), (''missing'', True), (''good'', False)]
     = ([\<lparr>features = [], wfs_err = Some (refused ''down'')\<rparr>,
         \<lparr>features = [], wfs_err = Some ''Non 200 response code: 404''\<rparr>], Exited)
   \<and> fetcher example_client example_xml [(''missing'', True)]
     = ([\<lparr>event = zeroEvent, publicID = ''missing'', err = Some ''Non 200 response code: 404''\<rparr>],
        Exited)
   \<and> sc_fetcher example_client example_sc_xml [(''missing'', True)]
     = ([\<lparr>event = zeroEvent, publicID = ''missing'', err = Some ''Non 200 response code: 404''\<rparr>],
        Exited)"
  using fetch_failure_surfaced [where c = example_client and j = example_json and u = "''down''"
      and e = "refused ''down''" and rest = "[(''missing'', True), (''good'', False)]"
      and r = "\<lparr>StatusCode = 404, Body = ([], None)\<rparr>" and publicid = "''missing''"
      and x = example_xml and x' = example_sc_xml and targets = "[]"]
    fetch_failure_surfaced [where c = example_client and j = example_json and u = "''missing''"
      and r = "\<lparr>StatusCode = 404, Body = ([], None)\<rparr>" and rest = "[(''good'', False)]"
      and publicid = "''missing''" and x = example_xml and x' = example_sc_xml and targets = "[]"]
    fetch_failure_surfaced [where c = example_client and j = example_json and u = "''good''"
      and r = "\<lparr>StatusCode = 404, Body = ([], None)\<rparr>" and rest = "[]"
      and publicid = "''missing''" and x = example_xml and x' = example_sc_xml and targets = "[]"]
  by (simp add: example_client_def non200_def Itoa_def appendInt_def digits.simps Let_def
      quakeMLUrl_def seiscompURL_def wfs_fetcher_def fetcher_def sc_fetcher_def)

text \<open>
  C7 as it was stated asks that the failure result carry the key of its target. The
  result of package wfs has no such field: two different requests that are both answered
  with the status 404 give the same result, so nothing read from the result tells the
  target.
\<close>

theorem wfs_result_no_key_counterexample:
  "''missing'' \<noteq> ''gone''
   \<and> example_client ''missing'' = Replied \<lparr>StatusCode = 404, Body = ([], None)\<rparr>
   \<and> example_client ''gone'' = Replied \<lparr>StatusCode = 404, Body = ([], None)\<rparr>
   \<and> wfs_fetch example_client example_json ''missing''
       = \<lparr>features = [], wfs_err = Some ''Non 200 response code: 404''\<rparr>
   \<and> wfs_fetch example_client example_json ''gone''
       = \<lparr>features = [], wfs_err = Some ''Non 200 response code: 404''\<rparr>
   \<and> \<not> (\<exists>key :: wfs_result \<Rightarrow> string. \<forall>u r.
          example_client u = Replied r \<and> StatusCode r \<noteq> 200
            \<longrightarrow> key (wfs_fetch example_client example_json u) = u)"
proof -
  let ?r = "\<lparr>StatusCode = 404, Body = ([], None)\<rparr>"
  have a: "example_client ''missing'' = Replied ?r"
    and b: "example_client ''gone'' = Replied ?r"
    by (simp_all add: example_client_def)
  have n: "non200 404 = ''Non 200 response code: 404''"
    by (simp add: non200_def Itoa_def appendInt_def digits.simps Let_def)
  have fa: "wfs_fetch example_client example_json ''missing''
       = \<lparr>features = [], wfs_err = Some ''Non 200 response code: 404''\<rparr>"
    by (simp add: wfs_fetch_def a n)
  have fb: "wfs_fetch example_client example_json ''gone''
       = \<lparr>features = [], wfs_err = Some ''Non 200 response code: 404''\<rparr>"
    by (simp add: wfs_fetch_def b n)
  have "\<not> (\<exists>key :: wfs_result \<Rightarrow> string. \<forall>u r.
          example_client u = Replied r \<and> StatusCode r \<noteq> 200
            \<longrightarrow> key (wfs_fetch example_client example_json u) = u)"
  proof
    assume "\<exists>key :: wfs_result \<Rightarrow> string. \<forall>u r.
          example_client u = Replied r \<and> StatusCode r \<noteq> 200
            \<longrightarrow> key (wfs_fetch example_client example_json u) = u"
    then obtain key :: "wfs_result \<Rightarrow> string" where
      k: "\<And>u r. example_client u = Replied r \<Longrightarrow> StatusCode r \<noteq> 200
            \<Longrightarrow> key (wfs_fetch example_client example_json u) = u"
      by blast
    have "key (wfs_fetch example_client example_json ''missing'') = ''missing''"
      by (rule k [OF a]) simp
    moreover have "key (wfs_fetch example_client example_json ''gone'') = ''gone''"
      by (rule k [OF b]) simp
    ultimately have "''missing'' = ''gone''" by (simp add: fa fb)
    then show False by simp
  qed
  with a b fa fb show ?thesis by simp
qed

section \<open>The tolerant aggregator: properties\<close>

lemma map_Returns_inj: "map Returns xs = map Returns ys \<longleftrightarrow> xs = ys"
  by (rule inj_map_eq_map) (simp add: inj_def)

lemma all_returned_iff: "all_returned xs = Returns rs \<longleftrightarrow> xs = map Returns rs"
proof (induction xs arbitrary: rs)
  case Nil
  then show ?case by auto
next
  case (Cons x xs)
  show ?case
  proof (cases x)
    case Panics
    then show ?thesis by auto
  next
    case (Returns r)
    show ?thesis
    proof (cases "all_returned xs")
      case Panics
      with Cons.IH have "xs \<noteq> map Returns ys" for ys by auto
      with Panics Returns show ?thesis by (cases rs) auto
    next
      case (Returns ys)
      with Cons.IH have xs: "xs = map Returns ys" by auto
      with \<open>x = Returns r\<close> Returns show ?thesis
        by (cases rs) (auto simp: map_Returns_inj)
    qed
  qed
qed

lemma all_returned_Panics: "Panics \<in> set xs \<Longrightarrow> all_returned xs = Panics"
proof (induction xs)
  case Nil
  then show ?case by simp
next
  case (Cons x xs)
  show ?case
  proof (cases x)
    case Panics
    then show ?thesis by simp
  next
    case (Returns r)
    with Cons.prems have "Panics \<in> set xs" by simp
    then have "all_returned xs = Panics" by (rule Cons.IH)
    with Returns show ?thesis by simp
  qed
qed

lemma fetch_publicID: "fetch c x publicid = Returns r \<Longrightarrow> publicID r = publicid"
proof (cases "c (quakeMLUrl @ publicid)")
  case (Replied rp)
  assume f: "fetch c x publicid = Returns r"
  obtain b be where body: "Body rp = (b, be)" by (cases "Body rp")
  show ?thesis
  proof (cases be)
    case (Some e)
    with f Replied body show ?thesis by (auto simp: fetch_def)
  next
    case None
    show ?thesis
    proof (cases "StatusCode rp = 200")
      case False
      with f Replied body None show ?thesis by (auto simp: fetch_def)
    next
      case True
      with f Replied body None show ?thesis
        by (cases "unmarshal x b") (auto simp: fetch_def)
    qed
  qed
next
  case (TransportError e)
  assume "fetch c x publicid = Returns r"
  with TransportError show ?thesis by (simp add: fetch_def)
next
  case (PolicyError rp e)
  assume "fetch c x publicid = Returns r"
  with PolicyError show ?thesis by (auto simp: fetch_def)
qed

lemma sc_fetch_publicID: "sc_fetch c x publicid = Returns r \<Longrightarrow> publicID r = publicid"
proof (cases "c (seiscompURL @ publicid @ ''.xml'')")
  case (Replied rp)
  assume f: "sc_fetch c x publicid = Returns r"
  obtain b be where body: "Body rp = (b, be)" by (cases "Body rp")
  show ?thesis
  proof (cases be)
    case (Some e)
    with f Replied body show ?thesis by (auto simp: sc_fetch_def)
  next
    case None
    show ?thesis
    proof (cases "StatusCode rp = 200")
      case False
      with f Replied body None show ?thesis by (auto simp: sc_fetch_def)
    next
      case True
      with f Replied body None show ?thesis
        by (cases "sc_unmarshal x b") (auto simp: sc_fetch_def)
    qed
  qed
next
  case (TransportError e)
  assume "sc_fetch c x publicid = Returns r"
  with TransportError show ?thesis by (simp add: sc_fetch_def)
next
  case (PolicyError rp e)
  assume "sc_fetch c x publicid = Returns r"
  with PolicyError show ?thesis by (auto simp: sc_fetch_def)
qed

lemma Get_loop_keys:
  "distinct (map publicID rs) \<Longrightarrow> set (map publicID rs) \<inter> set (map fst al) = {} \<Longrightarrow>
   map fst (fst (Get_loop rs al i lg)) = map fst al @ map publicID (filter (\<lambda>r. err r = None) rs)"
proof (induction rs arbitrary: al i lg)
  case Nil
  then show ?case by simp
next
  case (Cons r rs)
  show ?case
  proof (cases "err r")
    case None
    from Cons.prems have k: "publicID r \<notin> set (map fst al)" by auto
    then have keys: "map fst (AList.update (publicID r) (event r) al) = map fst al @ [publicID r]"
      by (simp add: update_keys)
    from Cons.prems have "distinct (map publicID rs)"
      and "set (map publicID rs) \<inter> set (map fst (AList.update (publicID r) (event r) al)) = {}"
      by (auto simp: keys)
    from Cons.IH [OF this] None show ?thesis
      by (simp add: Let_def keys split: prod.splits)
  next
    case (Some e)
    from Cons.prems have "distinct (map publicID rs)"
      and "set (map publicID rs) \<inter> set (map fst al) = {}"
      by auto
    from Cons.IH [OF this] Some show ?thesis
      by (simp add: Let_def split: prod.splits)
  qed
qed

lemma Get_loop_log_mono: "set lg \<subseteq> set (snd (Get_loop rs al i lg))"
proof (induction rs arbitrary: al i lg)
  case Nil
  then show ?case by simp
next
  case (Cons r rs)
  show ?case
  proof (cases "err r")
    case None
    show ?thesis
      using Cons.IH [of "if i + 1 = 50
          then lg @ [''Downloaded '' @ Itoa (int (length (AList.update (publicID r) (event r) al))) @ '' quakes'']
          else lg" "AList.update (publicID r) (event r) al" "if i + 1 = 50 then 0 else i + 1"] None
      by (auto simp: Let_def split: if_splits)
  next
    case (Some e)
    show ?thesis
      using Cons.IH [of "if i = 50
          then lg @ [''Error fetching data for '' @ publicID r, e] @ [''Downloaded '' @ Itoa (int (length al)) @ '' quakes'']
          else lg @ [''Error fetching data for '' @ publicID r, e]" al "if i = 50 then 0 else i"] Some
      by (auto simp: Let_def split: if_splits)
  qed
qed

lemma Get_loop_logs_failure:
  "r \<in> set rs \<Longrightarrow> err r = Some e \<Longrightarrow>
   ''Error fetching data for '' @ publicID r \<in> set (snd (Get_loop rs al i lg))
   \<and> e \<in> set (snd (Get_loop rs al i lg))"
proof (induction rs arbitrary: al i lg)
  case Nil
  then show ?case by simp
next
  case (Cons r' rs)
  show ?case
  proof (cases "r = r'")
    case True
    let ?lg1 = "lg @ [''Error fetching data for '' @ publicID r, e]"
    let ?lg2 = "if i = 50 then ?lg1 @ [''Downloaded '' @ Itoa (int (length al)) @ '' quakes''] else ?lg1"
    have "set ?lg2 \<subseteq> set (snd (Get_loop rs al (if i = 50 then 0 else i) ?lg2))"
      by (rule Get_loop_log_mono)
    then show ?thesis using True Cons.prems(2)
      by (auto simp: Let_def split: if_splits)
  next
    case False
    with Cons.prems have "r \<in> set rs" by simp
    from Cons.IH [OF this Cons.prems(2)] show ?thesis
      by (cases "err r'") (simp_all add: Let_def split: prod.splits)
  qed
qed

lemma Get_loop_tolerant:
  assumes "map g arrival = map Returns rs" and "distinct arrival"
    and pid: "\<And>publicid r. g publicid = Returns r \<Longrightarrow> publicID r = publicid"
    and g: "Get_loop rs [] 0 [] = (m, lg)"
  shows "map fst m = map publicID (filter (\<lambda>r. err r = None) rs)
     \<and> set (map fst m) \<subseteq> set arrival
     \<and> length m = length arrival - length (filter (\<lambda>r. err r \<noteq> None) rs)
     \<and> (\<forall>r \<in> set rs. \<forall>e. err r = Some e \<longrightarrow>
           ''Error fetching data for '' @ publicID r \<in> set lg \<and> e \<in> set lg)"
proof -
  from assms(1) have len: "length rs = length arrival"
    by (metis length_map)
  have ids: "map publicID rs = arrival"
  proof (rule nth_equalityI)
    show "length (map publicID rs) = length arrival" by (simp add: len)
  next
    fix n assume "n < length (map publicID rs)"
    then have n: "n < length arrival" "n < length rs" by (simp_all add: len)
    from assms(1) have "map g arrival ! n = map Returns rs ! n" by simp
    with n have "g (arrival ! n) = Returns (rs ! n)" by simp
    then have "publicID (rs ! n) = arrival ! n" by (rule pid)
    with n show "map publicID rs ! n = arrival ! n" by simp
  qed
  from assms(2) ids have d: "distinct (map publicID rs)" by simp
  from Get_loop_keys [OF d, of "[]" 0 "[]"] g
  have keys: "map fst m = map publicID (filter (\<lambda>r. err r = None) rs)" by simp
  then have sub: "set (map fst m) \<subseteq> set arrival" using ids by auto
  from keys have "length m = length (filter (\<lambda>r. err r = None) rs)"
    by (metis length_map)
  moreover have "length rs = length (filter (\<lambda>r. err r = None) rs) + length (filter (\<lambda>r. err r \<noteq> None) rs)"
    using sum_length_filter_compl [of "\<lambda>r. err r = None" rs] by simp
  ultimately have n: "length m = length arrival - length (filter (\<lambda>r. err r \<noteq> None) rs)"
    using len by simp
  have "\<forall>r \<in> set rs. \<forall>e. err r = Some e \<longrightarrow>
           ''Error fetching data for '' @ publicID r \<in> set lg \<and> e \<in> set lg"
    using Get_loop_logs_failure [of _ rs _ "[]" 0 "[]"] g by auto
  with keys sub n show ?thesis by blast
qed

text \<open>
  Outside the two panics, \<open>Get\<close> is tolerant as C5 says, in both packages: when no
  worker panics and the identifiers are distinct, the map returned has one entry for each
  identifier whose result carries no error, keyed by that identifier, so as many entries
  as identifiers less the failures; and each failure is logged with its identifier and
  its error.
\<close>

lemma Get_tolerant:
  assumes "map (fetch c x) arrival = map Returns rs" and "distinct arrival"
  shows "\<exists>m lg. Get c x arrival = Returns (m, lg)
     \<and> map fst m = map publicID (filter (\<lambda>r. err r = None) rs)
     \<and> set (map fst m) \<subseteq> set arrival
     \<and> length m = length arrival - length (filter (\<lambda>r. err r \<noteq> None) rs)
     \<and> (\<forall>r \<in> set rs. \<forall>e. err r = Some e \<longrightarrow>
           ''Error fetching data for '' @ publicID r \<in> set lg \<and> e \<in> set lg)"
proof -
  obtain m lg where g: "Get_loop rs [] 0 [] = (m, lg)" by (cases "Get_loop rs [] 0 []")
  from assms(1) have "all_returned (map (fetch c x) arrival) = Returns rs"
    by (simp add: all_returned_iff)
  then have "Get c x arrival = Returns (m, lg)" by (simp add: Get_def g)
  moreover have "publicID r = publicid" if "fetch c x publicid = Returns r" for publicid r
    using that by (rule fetch_publicID)
  note Get_loop_tolerant [OF assms this g]
  ultimately show ?thesis by blast
qed

lemma sc_Get_tolerant:
  assumes "map (sc_fetch c x) arrival = map Returns rs" and "distinct arrival"
  shows "\<exists>m lg. sc_Get c x arrival = Returns (m, lg)
     \<and> map fst m = map publicID (filter (\<lambda>r. err r = None) rs)
     \<and> set (map fst m) \<subseteq> set arrival
     \<and> length m = length arrival - length (filter (\<lambda>r. err r \<noteq> None) rs)
     \<and> (\<forall>r \<in> set rs. \<forall>e. err r = Some e \<longrightarrow>
           ''Error fetching data for '' @ publicID r \<in> set lg \<and> e \<in> set lg)"
proof -
  obtain m lg where g: "Get_loop rs [] 0 [] = (m, lg)" by (cases "Get_loop rs [] 0 []")
  from assms(1) have "all_returned (map (sc_fetch c x) arrival) = Returns rs"
    by (simp add: all_returned_iff)
  then have "sc_Get c x arrival = Returns (m, lg)" by (simp add: sc_Get_def g)
  moreover have "publicID r = publicid" if "sc_fetch c x publicid = Returns r" for publicid r
    using that by (rule sc_fetch_publicID)
  note Get_loop_tolerant [OF assms this g]
  ultimately show ?thesis by blast
qed

text \<open>
  C5, at a list with one identifier whose request fails in transport: the worker panics
  at \<open>defer r.Body.Close()\<close> and \<open>Get\<close> does not return, in both packages. The same
  holds when one of several identifiers fails so, and when the document of an
  identifier names a preferred origin that it does not hold.
\<close>

theorem Get_transport_failure:
  "example_client (quakeMLUrl @ ''down'') = TransportError (refused (quakeMLUrl @ ''down''))
   \<and> fetch example_client example_xml ''down'' = Panics
   \<and> Get example_client example_xml [''down''] = Panics
   \<and> Get example_client example_xml [''good'', ''down'', ''missing''] = Panics
   \<and> example_client (seiscompURL @ ''down'' @ ''.xml'')
       = TransportError (refused (seiscompURL @ ''down'' @ ''.xml''))
   \<and> sc_Get example_client example_sc_xml [''down''] = Panics
   \<and> Get example_client (\<lambda>b. (document ''o9'' ''m1'' [pick1], None)) [''good''] = Panics"
proof -
  have a: "example_client (quakeMLUrl @ ''down'') = TransportError (refused (quakeMLUrl @ ''down''))"
    and b: "example_client (seiscompURL @ ''down.xml'') = TransportError (refused (seiscompURL @ ''down.xml''))"
    and g: "example_client (quakeMLUrl @ ''good'') = Replied \<lparr>StatusCode = 200, Body = (''body'', None)\<rparr>"
    by (simp_all add: example_client_def quakeMLUrl_def seiscompURL_def)
  have f: "fetch example_client x ''down'' = Panics" for x
    by (simp add: fetch_def a)
  have s: "sc_fetch example_client x ''down'' = Panics" for x
    by (simp add: sc_fetch_def b)
  have i: "init (document ''o9'' ''m1'' [pick1]) = Panics"
    by (simp add: init_def document_def zeroEvent_def Let_def origin1_def magnitude1_def)
  have u: "fetch example_client (\<lambda>b. (document ''o9'' ''m1'' [pick1], None)) ''good'' = Panics"
    by (simp add: fetch_def g unmarshal_def i)
  show ?thesis
    by (simp add: a b f s u Get_def sc_Get_def all_returned_Panics)
qed


lemma Get_example:
  "\<exists>m. Get example_client example_xml [''missing'', ''good'']
     = Returns (m, [''Error fetching data for missing'', ''Non 200 response code: 404''])
     \<and> map fst m = [''good'']"
proof -
  have m: "example_client (quakeMLUrl @ ''missing'') = Replied \<lparr>StatusCode = 404, Body = ([], None)\<rparr>"
    and g: "example_client (quakeMLUrl @ ''good'') = Replied \<lparr>StatusCode = 200, Body = (''body'', None)\<rparr>"
    by (simp_all add: example_client_def quakeMLUrl_def seiscompURL_def)
  have n: "non200 404 = ''Non 200 response code: 404''"
    by (simp add: non200_def Itoa_def appendInt_def digits.simps Let_def)
  have i: "\<exists>q'. init (document ''o1'' ''m1'' [pick1]) = Returns (q', None)"
    by (simp add: init_def document_def zeroEvent_def Let_def origin1_def magnitude1_def)
  then obtain q' where q': "init (document ''o1'' ''m1'' [pick1]) = Returns (q', None)" ..
  have "fetch example_client example_xml ''good''
      = Returns \<lparr>event = Event (EventParameters q'), publicID = ''good'', err = None\<rparr>"
    by (simp add: fetch_def g unmarshal_def example_xml_def q')
  moreover have "fetch example_client example_xml ''missing''
      = Returns \<lparr>event = zeroEvent, publicID = ''missing'', err = Some ''Non 200 response code: 404''\<rparr>"
    by (simp add: fetch_def m n)
  ultimately show ?thesis
    by (simp add: Get_def)
qed


end
